theory Spec2Isabelle
  imports Main "HOL-Library.Word"
begin

section \<open>Data model\<close>

text \<open>
  The interface schema is parsed JSON (\<^verbatim>\<open>abi: any\<close>): an array of entries, of which the
  generator reads the properties \<^verbatim>\<open>type\<close>, \<^verbatim>\<open>name\<close>, \<^verbatim>\<open>stateMutability\<close> and \<^verbatim>\<open>inputs\<close>,
  and of every input its \<^verbatim>\<open>type\<close>. A property that is absent reads as \<^verbatim>\<open>undefined\<close> in
  JavaScript; it is \<open>None\<close> here. Entries and inputs are objects, tags and names are
  strings, and \<^verbatim>\<open>inputs\<close>, where present, is an array.
\<close>

record abi_input =
  input_type :: "string option"

record abi_item =
  item_type :: "string option"
  item_name :: "string option"
  stateMutability :: "string option"
  inputs :: "abi_input list option"

text \<open>
  A thrown error, with its \<^verbatim>\<open>message\<close>. Reading a property of \<^verbatim>\<open>undefined\<close> throws a
  TypeError, whose message names the property; the chain client throws errors of its own.
\<close>

datatype js_error = TypeError string | Error string

definition message :: "js_error \<Rightarrow> string" where
  "message e = (case e of TypeError m \<Rightarrow> m | Error m \<Rightarrow> m)"

definition undefined_read :: "string \<Rightarrow> js_error" where
  "undefined_read property =
     TypeError (''Cannot read properties of undefined (reading '' @ [CHR 39] @ property
                  @ [CHR 39] @ '')'')"

text \<open>The argument values the generator produces: strings, booleans and a \<^verbatim>\<open>Uint8Array\<close>.\<close>

datatype js_value = JString string | JBool bool | JBytes "8 word list"

datatype status = Pending | Running | Passed | Failed

record step_params =
  p_method :: "string option"
  p_contractAddress :: string
  p_args :: "js_value list"

record test_step =
  step_id :: string
  action :: string
  params :: step_params
  step_description :: string

record test_case =
  case_id :: string
  case_name :: string
  case_description :: string
  steps :: "test_step list"
  expectedResult :: string
  actualResult :: "string option"
  status :: status

record test_result =
  testCaseId :: string
  success :: bool
  error :: "string option"
  logs :: "string list"
  timestamp :: nat

section \<open>JavaScript and library primitives\<close>

text \<open>A template literal renders \<^verbatim>\<open>undefined\<close> as the text "undefined".\<close>

definition render :: "string option \<Rightarrow> string" where
  "render v = (case v of None \<Rightarrow> ''undefined'' | Some s \<Rightarrow> s)"

definition startsWith :: "string \<Rightarrow> string \<Rightarrow> bool" where
  "startsWith s p = (take (length p) s = p)"

text \<open>
  \<^verbatim>\<open>Number.prototype.toString()\<close> on a natural number: its decimal digits. \<open>digit_char\<close> is
  only applied to numbers below ten.
\<close>

definition digit_char :: "nat \<Rightarrow> char" where
  "digit_char d = ''0123456789'' ! d"

fun show_nat :: "nat \<Rightarrow> string" where
  "show_nat n = (if n < 10 then [digit_char n]
                 else show_nat (n div 10) @ [digit_char (n mod 10)])"

declare show_nat.simps [simp del]

text \<open>\<^verbatim>\<open>BigInt.prototype.toString()\<close>: decimal digits, with a minus sign when negative.\<close>

definition show_int :: "int \<Rightarrow> string" where
  "show_int i = (if i < 0 then CHR ''-'' # show_nat (nat (- i)) else show_nat (nat i))"

text \<open>The constants of the ethers library that the generator reads.\<close>

definition MaxUint256 :: int where
  "MaxUint256 = 2 ^ 256 - 1"

definition MinInt256 :: int where
  "MinInt256 = - (2 ^ 255)"

definition MaxInt256 :: int where
  "MaxInt256 = 2 ^ 255 - 1"

text \<open>
  \<^verbatim>\<open>ethers.parseUnits(n.toString(), 'ether')\<close> for a whole number \<open>n\<close>: the amount scaled by
  eighteen decimal places.
\<close>

definition parseUnits_ether :: "nat \<Rightarrow> int" where
  "parseUnits_ether n = int n * 10 ^ 18"

text \<open>
  The generator reads the clock and draws random numbers. Neither the floating-point
  operations on a drawn number nor the hash \<^verbatim>\<open>ethers.id\<close> are reproduced: they are fields of
  the runtime, over a type \<open>'d\<close> of drawn numbers and a type \<open>'w\<close> of states of the outside
  world, which every reading advances.
\<close>

record ('w, 'd) runtime =
  Date_now :: "'w \<Rightarrow> nat \<times> 'w"
  Math_random :: "'w \<Rightarrow> 'd \<times> 'w"
  toString36 :: "'d \<Rightarrow> string"
  toString10 :: "'d \<Rightarrow> string"
  floor_times :: "'d \<Rightarrow> nat \<Rightarrow> nat"
  greater_half :: "'d \<Rightarrow> bool"
  ethers_id :: "string \<Rightarrow> string"
  createRandom_address :: "'w \<Rightarrow> string \<times> 'w"
  randomBytes :: "nat \<Rightarrow> 'w \<Rightarrow> 8 word list \<times> 'w"

text \<open>\<^verbatim>\<open>Math.random().toString(36).substr(2, 9)\<close>, the random suffix of a case identifier.\<close>

definition random_suffix :: "('w, 'd) runtime \<Rightarrow> 'w \<Rightarrow> string \<times> 'w" where
  "random_suffix rt w =
     (case Math_random rt w of (r, w1) \<Rightarrow> (take 9 (drop 2 (toString36 rt r)), w1))"

text \<open>
  A thrown error ends the computation: \<open>and_then r f\<close> continues with \<open>f\<close> on the value of
  \<open>r\<close> unless \<open>r\<close> threw.
\<close>

definition and_then :: "js_error + 'a \<Rightarrow> ('a \<Rightarrow> js_error + 'b) \<Rightarrow> js_error + 'b" where
  "and_then r f = (case r of Inl e \<Rightarrow> Inl e | Inr x \<Rightarrow> f x)"

section \<open>AITestGenerator\<close>

subsection \<open>Argument generation\<close>

definition safe_arg :: "(string \<Rightarrow> string) \<Rightarrow> abi_input \<Rightarrow> js_value" where
  "safe_arg keccak input =
     (if input_type input = Some ''uint256'' then JString (show_int (parseUnits_ether 1))
      else if input_type input = Some ''uint8'' then JString ''1''
      else if input_type input = Some ''address''
        then JString ''0x0000000000000000000000000000000000000001''
      else if input_type input = Some ''string'' then JString ''Test String''
      else if input_type input = Some ''bool'' then JBool True
      else if input_type input = Some ''bytes'' then JString ''0x00''
      else if input_type input = Some ''bytes32'' then JString (keccak ''test'')
      else JString ''0'')"

text \<open>\<^verbatim>\<open>inputs.map(...)\<close> throws when \<^verbatim>\<open>inputs\<close> is \<^verbatim>\<open>undefined\<close>.\<close>

definition generateSafeArgs ::
  "(string \<Rightarrow> string) \<Rightarrow> abi_input list option \<Rightarrow> js_error + js_value list" where
  "generateSafeArgs keccak ins =
     (case ins of None \<Rightarrow> Inl (undefined_read ''map'')
      | Some xs \<Rightarrow> Inr (map (safe_arg keccak) xs))"

datatype boundary = Min | Max

text \<open>\<^verbatim>\<open>input.type.startsWith(...)\<close> throws when the input has no \<^verbatim>\<open>type\<close>.\<close>

definition boundary_value ::
  "(string \<Rightarrow> string) \<Rightarrow> boundary \<Rightarrow> string \<Rightarrow> abi_input \<Rightarrow> js_value" where
  "boundary_value keccak b t input =
     (if startsWith t ''uint''
        then (if b = Min then JString ''0'' else JString (show_int MaxUint256))
      else if startsWith t ''int''
        then (if b = Min then JString (show_int MinInt256) else JString (show_int MaxInt256))
      else safe_arg keccak input)"

definition boundary_arg ::
  "(string \<Rightarrow> string) \<Rightarrow> boundary \<Rightarrow> abi_input \<Rightarrow> js_error + js_value" where
  "boundary_arg keccak b input =
     (case input_type input of None \<Rightarrow> Inl (undefined_read ''startsWith'')
      | Some t \<Rightarrow> Inr (boundary_value keccak b t input))"

fun map_throwing :: "('a \<Rightarrow> js_error + 'b) \<Rightarrow> 'a list \<Rightarrow> js_error + 'b list" where
  "map_throwing f [] = Inr []"
| "map_throwing f (x # xs) =
     and_then (f x) (\<lambda>y. and_then (map_throwing f xs) (\<lambda>ys. Inr (y # ys)))"

definition generateBoundaryArgs ::
  "(string \<Rightarrow> string) \<Rightarrow> abi_input list option \<Rightarrow> boundary \<Rightarrow> js_error + js_value list" where
  "generateBoundaryArgs keccak ins b =
     (case ins of None \<Rightarrow> Inl (undefined_read ''map'')
      | Some xs \<Rightarrow> map_throwing (boundary_arg keccak b) xs)"

definition fuzzed_arg :: "('w, 'd) runtime \<Rightarrow> abi_input \<Rightarrow> 'w \<Rightarrow> js_value \<times> 'w" where
  "fuzzed_arg rt input w =
     (if input_type input = Some ''uint256''
        then (case Math_random rt w of (r, w1) \<Rightarrow>
                (JString (show_int (parseUnits_ether (floor_times rt r 1000))), w1))
      else if input_type input = Some ''uint8''
        then (case Math_random rt w of (r, w1) \<Rightarrow>
                (JString (show_nat (floor_times rt r 256)), w1))
      else if input_type input = Some ''address''
        then (case createRandom_address rt w of (a, w1) \<Rightarrow> (JString a, w1))
      else if input_type input = Some ''string''
        then (case Math_random rt w of (r, w1) \<Rightarrow> (JString (drop 7 (toString36 rt r)), w1))
      else if input_type input = Some ''bool''
        then (case Math_random rt w of (r, w1) \<Rightarrow> (JBool (greater_half rt r), w1))
      else if input_type input = Some ''bytes''
        then (case randomBytes rt 32 w of (bs, w1) \<Rightarrow> (JBytes bs, w1))
      else if input_type input = Some ''bytes32''
        then (case Math_random rt w of (r, w1) \<Rightarrow>
                (JString (ethers_id rt (toString10 rt r)), w1))
      else (JString ''0'', w))"

fun map_drawing :: "('a \<Rightarrow> 'w \<Rightarrow> 'b \<times> 'w) \<Rightarrow> 'a list \<Rightarrow> 'w \<Rightarrow> 'b list \<times> 'w" where
  "map_drawing f [] w = ([], w)"
| "map_drawing f (x # xs) w =
     (case f x w of (y, w1) \<Rightarrow>
        (case map_drawing f xs w1 of (ys, w2) \<Rightarrow> (y # ys, w2)))"

definition generateFuzzedArgs ::
  "('w, 'd) runtime \<Rightarrow> abi_input list option \<Rightarrow> 'w \<Rightarrow> js_error + js_value list \<times> 'w" where
  "generateFuzzedArgs rt ins w =
     (case ins of None \<Rightarrow> Inl (undefined_read ''map'')
      | Some xs \<Rightarrow> Inr (map_drawing (fuzzed_arg rt) xs w))"

subsection \<open>Case construction\<close>

text \<open>
  The object literal of each constructor, as a function of the identifiers and the argument
  lists that are computed while it is built.
\<close>

definition view_case ::
  "string \<Rightarrow> string \<Rightarrow> abi_item \<Rightarrow> string \<Rightarrow> js_value list \<Rightarrow> test_case" where
  "view_case cid sid abiItem contractAddress as =
     \<lparr> case_id = cid,
       case_name = ''Read Test: '' @ render (item_name abiItem),
       case_description =
         ''Verify read operation for '' @ render (item_name abiItem) @ '' function'',
       steps =
         [\<lparr> step_id = sid,
            action = ''CONTRACT_CALL'',
            params = \<lparr> p_method = item_name abiItem,
                       p_contractAddress = contractAddress,
                       p_args = as \<rparr>,
            step_description =
              ''Call '' @ render (item_name abiItem) @ '' with safe parameters'' \<rparr>],
       expectedResult = ''Function should return a valid response'',
       actualResult = None,
       status = Pending \<rparr>"

definition write_case ::
  "string \<Rightarrow> string \<Rightarrow> abi_item \<Rightarrow> string \<Rightarrow> js_value list \<Rightarrow> test_case" where
  "write_case cid sid abiItem contractAddress as =
     \<lparr> case_id = cid,
       case_name = ''Write Test: '' @ render (item_name abiItem),
       case_description =
         ''Verify state change for '' @ render (item_name abiItem) @ '' function'',
       steps =
         [\<lparr> step_id = sid,
            action = ''CONTRACT_CALL'',
            params = \<lparr> p_method = item_name abiItem,
                       p_contractAddress = contractAddress,
                       p_args = as \<rparr>,
            step_description =
              ''Execute '' @ render (item_name abiItem) @ '' with valid parameters'' \<rparr>],
       expectedResult = ''Transaction should be successful and state should be updated'',
       actualResult = None,
       status = Pending \<rparr>"

definition boundary_case ::
  "string \<Rightarrow> string \<Rightarrow> string \<Rightarrow> abi_item \<Rightarrow> string \<Rightarrow> js_value list \<Rightarrow> js_value list
     \<Rightarrow> test_case" where
  "boundary_case cid sid_min sid_max abiItem contractAddress lo hi =
     \<lparr> case_id = cid,
       case_name = ''Boundary Test: '' @ render (item_name abiItem),
       case_description =
         ''Test boundary conditions for '' @ render (item_name abiItem) @ '' function'',
       steps =
         [\<lparr> step_id = sid_min,
            action = ''CONTRACT_CALL'',
            params = \<lparr> p_method = item_name abiItem,
                       p_contractAddress = contractAddress,
                       p_args = lo \<rparr>,
            step_description =
              ''Test '' @ render (item_name abiItem) @ '' with minimum values'' \<rparr>,
          \<lparr> step_id = sid_max,
            action = ''CONTRACT_CALL'',
            params = \<lparr> p_method = item_name abiItem,
                       p_contractAddress = contractAddress,
                       p_args = hi \<rparr>,
            step_description =
              ''Test '' @ render (item_name abiItem) @ '' with maximum values'' \<rparr>],
       expectedResult = ''Function should handle boundary values correctly'',
       actualResult = None,
       status = Pending \<rparr>"

definition fuzz_case ::
  "string \<Rightarrow> string \<Rightarrow> abi_item \<Rightarrow> string \<Rightarrow> js_value list \<Rightarrow> test_case" where
  "fuzz_case cid sid abiItem contractAddress as =
     \<lparr> case_id = cid,
       case_name = ''Fuzzing Test: '' @ render (item_name abiItem),
       case_description =
         ''Fuzz testing for '' @ render (item_name abiItem) @ '' function with random inputs'',
       steps =
         [\<lparr> step_id = sid,
            action = ''CONTRACT_CALL'',
            params = \<lparr> p_method = item_name abiItem,
                       p_contractAddress = contractAddress,
                       p_args = as \<rparr>,
            step_description =
              ''Test '' @ render (item_name abiItem) @ '' with fuzzed inputs'' \<rparr>],
       expectedResult = ''Function should handle unexpected inputs gracefully'',
       actualResult = None,
       status = Pending \<rparr>"

definition integration_case ::
  "string \<Rightarrow> string \<Rightarrow> string \<Rightarrow> abi_item \<Rightarrow> abi_item \<Rightarrow> string
     \<Rightarrow> js_value list \<Rightarrow> js_value list \<Rightarrow> test_case" where
  "integration_case cid sid_write sid_read writeFn readFn contractAddress was ras =
     \<lparr> case_id = cid,
       case_name = ''State Change Verification'',
       case_description =
         ''Verify state changes through write operations and confirm with read operations'',
       steps =
         [\<lparr> step_id = sid_write,
            action = ''CONTRACT_CALL'',
            params = \<lparr> p_method = item_name writeFn,
                       p_contractAddress = contractAddress,
                       p_args = was \<rparr>,
            step_description =
              ''Execute '' @ render (item_name writeFn) @ '' to modify state'' \<rparr>,
          \<lparr> step_id = sid_read,
            action = ''CONTRACT_CALL'',
            params = \<lparr> p_method = item_name readFn,
                       p_contractAddress = contractAddress,
                       p_args = ras \<rparr>,
            step_description =
              ''Verify state change using '' @ render (item_name readFn) \<rparr>],
       expectedResult = ''State change should be reflected in read operation'',
       actualResult = None,
       status = Pending \<rparr>"

text \<open>
  Each constructor evaluates its literal from top to bottom: the clock and a random number
  for the case identifier, then for each step the clock for its identifier and after it the
  step's arguments. A fault in the arguments leaves no case.
\<close>

definition createViewFunctionTest ::
  "('w, 'd) runtime \<Rightarrow> abi_item \<Rightarrow> string \<Rightarrow> 'w \<Rightarrow> js_error + test_case \<times> 'w" where
  "createViewFunctionTest rt abiItem contractAddress w =
     (case Date_now rt w of (t1, w1) \<Rightarrow>
      case random_suffix rt w1 of (r, w2) \<Rightarrow>
      case Date_now rt w2 of (t2, w3) \<Rightarrow>
      and_then (generateSafeArgs (ethers_id rt) (inputs abiItem)) (\<lambda>as.
        Inr (view_case (''view-'' @ show_nat t1 @ ''-'' @ r) (''step-'' @ show_nat t2)
               abiItem contractAddress as, w3)))"

definition createWriteFunctionTest ::
  "('w, 'd) runtime \<Rightarrow> abi_item \<Rightarrow> string \<Rightarrow> 'w \<Rightarrow> js_error + test_case \<times> 'w" where
  "createWriteFunctionTest rt abiItem contractAddress w =
     (case Date_now rt w of (t1, w1) \<Rightarrow>
      case random_suffix rt w1 of (r, w2) \<Rightarrow>
      case Date_now rt w2 of (t2, w3) \<Rightarrow>
      and_then (generateSafeArgs (ethers_id rt) (inputs abiItem)) (\<lambda>as.
        Inr (write_case (''write-'' @ show_nat t1 @ ''-'' @ r) (''step-'' @ show_nat t2)
               abiItem contractAddress as, w3)))"

definition createBoundaryTest ::
  "('w, 'd) runtime \<Rightarrow> abi_item \<Rightarrow> string \<Rightarrow> 'w \<Rightarrow> js_error + test_case \<times> 'w" where
  "createBoundaryTest rt abiItem contractAddress w =
     (case Date_now rt w of (t1, w1) \<Rightarrow>
      case random_suffix rt w1 of (r, w2) \<Rightarrow>
      case Date_now rt w2 of (t2, w3) \<Rightarrow>
      and_then (generateBoundaryArgs (ethers_id rt) (inputs abiItem) Min) (\<lambda>lo.
      case Date_now rt w3 of (t3, w4) \<Rightarrow>
      and_then (generateBoundaryArgs (ethers_id rt) (inputs abiItem) Max) (\<lambda>hi.
        Inr (boundary_case (''boundary-'' @ show_nat t1 @ ''-'' @ r)
               (''step-min-'' @ show_nat t2) (''step-max-'' @ show_nat t3)
               abiItem contractAddress lo hi, w4))))"

definition createFuzzingTest ::
  "('w, 'd) runtime \<Rightarrow> abi_item \<Rightarrow> string \<Rightarrow> 'w \<Rightarrow> js_error + test_case \<times> 'w" where
  "createFuzzingTest rt abiItem contractAddress w =
     (case Date_now rt w of (t1, w1) \<Rightarrow>
      case random_suffix rt w1 of (r, w2) \<Rightarrow>
      case Date_now rt w2 of (t2, w3) \<Rightarrow>
      and_then (generateFuzzedArgs rt (inputs abiItem) w3) (\<lambda>(as, w4).
        Inr (fuzz_case (''fuzz-'' @ show_nat t1 @ ''-'' @ r) (''step-fuzz-'' @ show_nat t2)
               abiItem contractAddress as, w4)))"

subsection \<open>Integration cases\<close>

definition isWriteFunction :: "abi_item \<Rightarrow> bool" where
  "isWriteFunction item =
     (item_type item = Some ''function'' \<and>
      stateMutability item \<noteq> Some ''view'' \<and>
      stateMutability item \<noteq> Some ''pure'')"

definition isReadFunction :: "abi_item \<Rightarrow> bool" where
  "isReadFunction item =
     (item_type item = Some ''function'' \<and>
      (stateMutability item = Some ''view'' \<or> stateMutability item = Some ''pure''))"

text \<open>
  \<^verbatim>\<open>writeFunctions[0]\<close> and \<^verbatim>\<open>readFunctions[0]\<close> are read only behind the length test, so
  both lists have a head there.
\<close>

definition generateIntegrationTests ::
  "('w, 'd) runtime \<Rightarrow> abi_item list \<Rightarrow> string \<Rightarrow> 'w \<Rightarrow> js_error + test_case list \<times> 'w"
  where
  "generateIntegrationTests rt abi contractAddress w =
     (case (filter isWriteFunction abi, filter isReadFunction abi) of
        (writeFn # _, readFn # _) \<Rightarrow>
          (case Date_now rt w of (t1, w1) \<Rightarrow>
           case random_suffix rt w1 of (r, w2) \<Rightarrow>
           case Date_now rt w2 of (t2, w3) \<Rightarrow>
           and_then (generateSafeArgs (ethers_id rt) (inputs writeFn)) (\<lambda>was.
           case Date_now rt w3 of (t3, w4) \<Rightarrow>
           and_then (generateSafeArgs (ethers_id rt) (inputs readFn)) (\<lambda>ras.
             Inr ([integration_case (''integration-'' @ show_nat t1 @ ''-'' @ r)
                     (''step-write-'' @ show_nat t2) (''step-read-'' @ show_nat t3)
                     writeFn readFn contractAddress was ras], w4))))
      | _ \<Rightarrow> Inr ([], w))"

subsection \<open>The generator loop\<close>

text \<open>
  \<^verbatim>\<open>item.inputs.some(input => input.type.startsWith('uint') || input.type.startsWith('int'))\<close>:
  \<^verbatim>\<open>some\<close> stops at the first input that satisfies the test; the test throws on an input
  without a \<^verbatim>\<open>type\<close>, and the call throws when \<^verbatim>\<open>inputs\<close> is \<^verbatim>\<open>undefined\<close>.
\<close>

definition isIntegerInput :: "abi_input \<Rightarrow> js_error + bool" where
  "isIntegerInput input =
     (case input_type input of None \<Rightarrow> Inl (undefined_read ''startsWith'')
      | Some t \<Rightarrow> Inr (startsWith t ''uint'' \<or> startsWith t ''int''))"

fun some_throwing :: "('a \<Rightarrow> js_error + bool) \<Rightarrow> 'a list \<Rightarrow> js_error + bool" where
  "some_throwing p [] = Inr False"
| "some_throwing p (x # xs) =
     and_then (p x) (\<lambda>b. if b then Inr True else some_throwing p xs)"

definition hasIntegerInput :: "abi_item \<Rightarrow> js_error + bool" where
  "hasIntegerInput item =
     (case inputs item of None \<Rightarrow> Inl (undefined_read ''some'')
      | Some xs \<Rightarrow> some_throwing isIntegerInput xs)"

definition hasInputs :: "abi_item \<Rightarrow> js_error + bool" where
  "hasInputs item =
     (case inputs item of None \<Rightarrow> Inl (undefined_read ''length'')
      | Some xs \<Rightarrow> Inr (length xs > 0))"

text \<open>One pass of the loop body: the cases pushed for one entry, in the order pushed.\<close>

definition item_cases ::
  "('w, 'd) runtime \<Rightarrow> string \<Rightarrow> abi_item \<Rightarrow> 'w \<Rightarrow> js_error + test_case list \<times> 'w" where
  "item_cases rt contractAddress item w =
     (if item_type item = Some ''function'' then
        and_then
          (if stateMutability item = Some ''view'' \<or> stateMutability item = Some ''pure''
           then createViewFunctionTest rt item contractAddress w
           else createWriteFunctionTest rt item contractAddress w)
          (\<lambda>(c1, w1).
        and_then (hasIntegerInput item) (\<lambda>numeric.
        and_then
          (if numeric
           then and_then (createBoundaryTest rt item contractAddress w1)
                  (\<lambda>(c2, w2). Inr ([c2], w2))
           else Inr ([], w1))
          (\<lambda>(bs, w2).
        and_then (hasInputs item) (\<lambda>nonempty.
        and_then
          (if nonempty
           then and_then (createFuzzingTest rt item contractAddress w2)
                  (\<lambda>(c3, w3). Inr ([c3], w3))
           else Inr ([], w2))
          (\<lambda>(fs, w3). Inr (c1 # bs @ fs, w3))))))
      else Inr ([], w))"

fun test_loop ::
  "('w, 'd) runtime \<Rightarrow> string \<Rightarrow> abi_item list \<Rightarrow> test_case list \<Rightarrow> 'w
     \<Rightarrow> js_error + test_case list \<times> 'w" where
  "test_loop rt contractAddress [] testCases w = Inr (testCases, w)"
| "test_loop rt contractAddress (item # rest) testCases w =
     and_then (item_cases rt contractAddress item w)
       (\<lambda>(cs, w1). test_loop rt contractAddress rest (testCases @ cs) w1)"

definition generateTestCases ::
  "('w, 'd) runtime \<Rightarrow> abi_item list \<Rightarrow> string \<Rightarrow> 'w \<Rightarrow> js_error + test_case list \<times> 'w"
  where
  "generateTestCases rt abi contractAddress w =
     and_then (test_loop rt contractAddress abi [] w) (\<lambda>(testCases, w1).
     and_then (generateIntegrationTests rt abi contractAddress w1) (\<lambda>(its, w2).
       Inr (testCases @ its, w2)))"

section \<open>TestExecutor\<close>

text \<open>
  The chain client is the ethers contract handle over the signer and provider, with a state
  \<open>'s\<close> of the network that calls change:
  \<^item> \<open>newContract\<close>: \<^verbatim>\<open>new ethers.Contract(address, [method], signer)\<close>, the error when the
    constructor throws;
  \<^item> \<open>submit\<close>: \<^verbatim>\<open>await contract[method](...args)\<close>, the error or the hash of the
    transaction;
  \<^item> \<open>wait\<close>: \<^verbatim>\<open>await tx.wait()\<close>, the error if the confirmation fails;
  \<^item> \<open>now\<close>: \<^verbatim>\<open>Date.now()\<close>.
\<close>

record 's chain_client =
  newContract :: "step_params \<Rightarrow> js_error option"
  submit :: "'s \<Rightarrow> step_params \<Rightarrow> (js_error + string) \<times> 's"
  wait :: "'s \<Rightarrow> string \<Rightarrow> js_error option \<times> 's"
  now :: "'s \<Rightarrow> nat"

text \<open>
  The state of one run of \<^verbatim>\<open>executeTest\<close>: the test case object it was handed, its local
  \<^verbatim>\<open>logs\<close> array and the network. \<open>submitted\<close> is not a variable of the source: it records
  the calls handed to \<open>submit\<close>, in order.
\<close>

record 's exec_state =
  the_case :: test_case
  ex_logs :: "string list"
  chain :: 's
  submitted :: "step_params list"

text \<open>
  The loop over the steps inside \<^verbatim>\<open>try\<close>. A thrown error leaves the loop with the state
  reached so far; the \<^verbatim>\<open>catch\<close> clause sees that state.
\<close>

fun run_steps ::
  "'s chain_client \<Rightarrow> test_step list \<Rightarrow> 's exec_state \<Rightarrow> js_error option \<times> 's exec_state"
  where
  "run_steps cl [] st = (None, st)"
| "run_steps cl (step # rest) st =
     (if action step = ''CONTRACT_CALL'' then
        (case newContract cl (params step) of
           Some e \<Rightarrow> (Some e, st)
         | None \<Rightarrow>
             (case submit cl (chain st) (params step) of
                (Inl e, s1) \<Rightarrow>
                  (Some e,
                   st \<lparr> ex_logs := ex_logs st
                          @ [''Executing contract call: '' @ render (p_method (params step))],
                        chain := s1,
                        submitted := submitted st @ [params step] \<rparr>)
              | (Inr hash, s1) \<Rightarrow>
                  (case wait cl s1 hash of
                     (Some e, s2) \<Rightarrow>
                       (Some e,
                        st \<lparr> ex_logs := ex_logs st
                               @ [''Executing contract call: ''
                                    @ render (p_method (params step))],
                             chain := s2,
                             submitted := submitted st @ [params step] \<rparr>)
                   | (None, s2) \<Rightarrow>
                       run_steps cl rest
                         (st \<lparr> ex_logs := ex_logs st
                                 @ [''Executing contract call: ''
                                      @ render (p_method (params step)),
                                    ''Transaction successful: '' @ hash],
                               chain := s2,
                               submitted := submitted st @ [params step] \<rparr>))))
      else run_steps cl rest st)"

record 's exec_outcome =
  result :: test_result
  case_after :: test_case
  chain_after :: 's
  calls :: "step_params list"

definition executeTest :: "'s chain_client \<Rightarrow> test_case \<Rightarrow> 's \<Rightarrow> 's exec_outcome" where
  "executeTest cl testCase s =
     (case run_steps cl (steps testCase)
             \<lparr> the_case = testCase,
               ex_logs = [''Starting test: '' @ case_name testCase],
               chain = s,
               submitted = [] \<rparr> of
        (None, st) \<Rightarrow>
          \<lparr> result = \<lparr> testCaseId = case_id (the_case st),
                        success = True,
                        error = None,
                        logs = ex_logs st,
                        timestamp = now cl (chain st) \<rparr>,
            case_after = the_case st,
            chain_after = chain st,
            calls = submitted st \<rparr>
      | (Some e, st) \<Rightarrow>
          \<lparr> result = \<lparr> testCaseId = case_id (the_case st),
                        success = False,
                        error = Some (message e),
                        logs = ex_logs st @ [''Error: '' @ message e],
                        timestamp = now cl (chain st) \<rparr>,
            case_after = the_case st,
            chain_after = chain st,
            calls = submitted st \<rparr>)"

text \<open>
  \<^verbatim>\<open>validateContract\<close>: the probe \<^verbatim>\<open>provider.getCode(address)\<close> of the configured network
  returns the code or throws; \<^verbatim>\<open>catch\<close> turns every error into \<^verbatim>\<open>false\<close>.
\<close>

definition try_catch :: "js_error + 'a \<Rightarrow> (js_error \<Rightarrow> js_error + 'a) \<Rightarrow> js_error + 'a" where
  "try_catch body handler = (case body of Inl e \<Rightarrow> handler e | Inr v \<Rightarrow> Inr v)"

definition validateContract :: "(string \<Rightarrow> js_error + string) \<Rightarrow> string \<Rightarrow> js_error + bool" where
  "validateContract getCode address =
     try_catch (and_then (getCode address) (\<lambda>code. Inr (code \<noteq> ''0x''))) (\<lambda>e. Inr False)"

section \<open>The application's drivers\<close>

text \<open>The test \<^verbatim>\<open>/^0x[a-fA-F0-9]{40}$/\<close> on the address entered.\<close>

definition isHexDigit :: "char \<Rightarrow> bool" where
  "isHexDigit c =
     (let n = (of_char c :: nat)
      in (of_char CHR ''a'' \<le> n \<and> n \<le> of_char CHR ''f'')
         \<or> (of_char CHR ''A'' \<le> n \<and> n \<le> of_char CHR ''F'')
         \<or> (of_char CHR ''0'' \<le> n \<and> n \<le> of_char CHR ''9''))"

definition matchesAddress :: "string \<Rightarrow> bool" where
  "matchesAddress a =
     (length a = 42 \<and> take 2 a = ''0x'' \<and> list_all isHexDigit (drop 2 a))"

text \<open>
  The validation effect: the flag \<^verbatim>\<open>isValidContract\<close> and the advisory text it sets.
\<close>

definition validateContract_effect ::
  "(string \<Rightarrow> js_error + string) \<Rightarrow> string \<Rightarrow> js_error + bool \<times> string" where
  "validateContract_effect getCode contractAddress =
     (if contractAddress \<noteq> [] \<and> matchesAddress contractAddress then
        and_then (validateContract getCode contractAddress) (\<lambda>isValid.
          Inr (isValid,
               if isValid then []
               else ''Invalid contract address or contract not deployed on selected network''))
      else Inr (False, if contractAddress \<noteq> [] then ''Invalid contract address format'' else []))"

text \<open>
  One pass of the loop of \<^verbatim>\<open>handleExecuteTests\<close> on the case at hand: mark it running,
  execute it, then write the terminal status and the actual result into it.
\<close>

definition run_case :: "'s chain_client \<Rightarrow> test_case \<Rightarrow> 's \<Rightarrow> test_case \<times> 's exec_outcome" where
  "run_case cl test s =
     (let out = executeTest cl (test \<lparr> status := Running \<rparr>) s;
          test1 = (case_after out) \<lparr> status := (if success (result out) then Passed else Failed) \<rparr>;
          test2 = test1 \<lparr> actualResult :=
                     (if success (result out) then Some ''Test passed successfully''
                      else error (result out)) \<rparr>
      in (test2, out))"

text \<open>
  The loop runs over the indices of \<^verbatim>\<open>updatedTests\<close>, whose length does not change, and
  updates the case at each index in place.
\<close>

definition execute_step ::
  "'s chain_client \<Rightarrow> test_case list \<times> 's \<Rightarrow> nat \<Rightarrow> test_case list \<times> 's" where
  "execute_step cl acc i =
     (case acc of (updatedTests, s) \<Rightarrow>
        (case run_case cl (updatedTests ! i) s of
           (test, out) \<Rightarrow> (updatedTests [i := test], chain_after out)))"

definition handleExecuteTests ::
  "'s chain_client \<Rightarrow> test_case list \<Rightarrow> 's \<Rightarrow> test_case list \<times> 's" where
  "handleExecuteTests cl testCases s =
     foldl (execute_step cl) (testCases, s) [0 ..< length testCases]"

section \<open>Structural content of the synthesized cases\<close>

text \<open>
  The five constructors name their cases differently; the name tells the kind of a case.
\<close>

datatype case_kind = ReadCase | WriteCase | BoundaryCase | FuzzCase | IntegrationCase

definition kind_of_name :: "string \<Rightarrow> case_kind option" where
  "kind_of_name n =
     (if startsWith n ''Read Test: '' then Some ReadCase
      else if startsWith n ''Write Test: '' then Some WriteCase
      else if startsWith n ''Boundary Test: '' then Some BoundaryCase
      else if startsWith n ''Fuzzing Test: '' then Some FuzzCase
      else if n = ''State Change Verification'' then Some IntegrationCase
      else None)"

definition case_kind :: "test_case \<Rightarrow> case_kind option" where
  "case_kind c = kind_of_name (case_name c)"

text \<open>
  The structural content of a case is the case with its identifiers blanked: the case
  identifier, the identifier of every step and, in a fuzz case, the value of every argument
  (their number stays). The outcome of a call of the generator is the structural content
  of its cases, or \<open>None\<close> when the call threw.
\<close>

definition blank_step :: "bool \<Rightarrow> test_step \<Rightarrow> test_step" where
  "blank_step fz s =
     s \<lparr> step_id := [],
         params := (if fz then (params s) \<lparr> p_args := map (\<lambda>v. JString []) (p_args (params s)) \<rparr>
                    else params s) \<rparr>"

definition structural_content :: "test_case \<Rightarrow> test_case" where
  "structural_content c =
     c \<lparr> case_id := [], steps := map (blank_step (case_kind c = Some FuzzCase)) (steps c) \<rparr>"

definition outcome :: "js_error + test_case list \<times> 'w \<Rightarrow> test_case list option" where
  "outcome r = (case r of Inl e \<Rightarrow> None | Inr (cs, w) \<Rightarrow> Some (map structural_content cs))"

text \<open>
  A schema entry is well formed when, if it is classified as a function, it has its list of
  inputs and every input has a type tag. An input is integer-typed, for the generator, when
  its tag starts with \<^verbatim>\<open>uint\<close> or \<^verbatim>\<open>int\<close>.
\<close>

definition typed :: "abi_input \<Rightarrow> bool" where
  "typed input = (input_type input \<noteq> None)"

definition well_formed_item :: "abi_item \<Rightarrow> bool" where
  "well_formed_item item =
     (if item_type item = Some ''function''
      then (case inputs item of None \<Rightarrow> False | Some xs \<Rightarrow> list_all typed xs)
      else True)"

definition integer_typed :: "abi_input \<Rightarrow> bool" where
  "integer_typed input =
     (case input_type input of None \<Rightarrow> False
      | Some t \<Rightarrow> startsWith t ''uint'' \<or> startsWith t ''int'')"

text \<open>
  The cases of a well-formed schema with blank identifiers, written without the clock, the
  random source and the error paths: for each entry what one pass of the loop pushes, then
  the integration case. \<open>outcome_generateTestCases\<close> below shows that this is the
  structural content of what the generator returns.
\<close>

definition boundary_pick :: "(string \<Rightarrow> string) \<Rightarrow> boundary \<Rightarrow> abi_input \<Rightarrow> js_value" where
  "boundary_pick k b input =
     (case input_type input of None \<Rightarrow> JString [] | Some t \<Rightarrow> boundary_value k b t input)"

definition item_skeleton :: "(string \<Rightarrow> string) \<Rightarrow> string \<Rightarrow> abi_item \<Rightarrow> test_case list" where
  "item_skeleton k addr item =
     (if item_type item = Some ''function'' then
        (case inputs item of None \<Rightarrow> []
         | Some xs \<Rightarrow>
             [if stateMutability item = Some ''view'' \<or> stateMutability item = Some ''pure''
              then view_case [] [] item addr (map (safe_arg k) xs)
              else write_case [] [] item addr (map (safe_arg k) xs)]
             @ (if list_ex integer_typed xs
                then [boundary_case [] [] [] item addr
                        (map (boundary_pick k Min) xs) (map (boundary_pick k Max) xs)]
                else [])
             @ (if xs \<noteq> [] then [fuzz_case [] [] item addr (map (\<lambda>i. JString []) xs)] else []))
      else [])"

definition integration_skeleton :: "(string \<Rightarrow> string) \<Rightarrow> string \<Rightarrow> abi_item list \<Rightarrow> test_case list" where
  "integration_skeleton k addr abi =
     (case (filter isWriteFunction abi, filter isReadFunction abi) of
        (writeFn # _, readFn # _) \<Rightarrow>
          (case (inputs writeFn, inputs readFn) of
             (Some ws, Some rs) \<Rightarrow>
               [integration_case [] [] [] writeFn readFn addr
                  (map (safe_arg k) ws) (map (safe_arg k) rs)]
           | _ \<Rightarrow> [])
      | _ \<Rightarrow> [])"

definition skeleton :: "(string \<Rightarrow> string) \<Rightarrow> string \<Rightarrow> abi_item list \<Rightarrow> test_case list" where
  "skeleton k addr abi = concat (map (item_skeleton k addr) abi) @ integration_skeleton k addr abi"

text \<open>The same for a single constructor, and the first constructor that the loop calls.\<close>

definition outcome1 :: "js_error + test_case \<times> 'w \<Rightarrow> test_case option" where
  "outcome1 r = (case r of Inl e \<Rightarrow> None | Inr (c, w) \<Rightarrow> Some (structural_content c))"

definition read_or_write ::
  "('w, 'd) runtime \<Rightarrow> abi_item \<Rightarrow> string \<Rightarrow> 'w \<Rightarrow> js_error + test_case \<times> 'w" where
  "read_or_write rt item addr w =
     (if stateMutability item = Some ''view'' \<or> stateMutability item = Some ''pure''
      then createViewFunctionTest rt item addr w
      else createWriteFunctionTest rt item addr w)"

section \<open>Properties of execution: definitions\<close>

text \<open>
  \<open>faultless\<close> says that every contract call of the steps, run in order from the network
  state \<open>s\<close>, is constructed, submitted and confirmed without an error.
\<close>

fun faultless :: "'s chain_client \<Rightarrow> test_step list \<Rightarrow> 's \<Rightarrow> bool" where
  "faultless cl [] s = True"
| "faultless cl (step # rest) s =
     (if action step = ''CONTRACT_CALL'' then
        (case newContract cl (params step) of
           Some e \<Rightarrow> False
         | None \<Rightarrow>
             (case submit cl s (params step) of
                (Inl e, s1) \<Rightarrow> False
              | (Inr hash, s1) \<Rightarrow>
                  (case wait cl s1 hash of
                     (Some e, s2) \<Rightarrow> False
                   | (None, s2) \<Rightarrow> faultless cl rest s2)))
      else faultless cl rest s)"

text \<open>The error that the first step of a case raises, if it raises one.\<close>

definition first_step_fault :: "'s chain_client \<Rightarrow> test_case \<Rightarrow> 's \<Rightarrow> js_error option" where
  "first_step_fault cl tc s =
     (case steps tc of
        [] \<Rightarrow> None
      | step # rest \<Rightarrow>
          if action step = ''CONTRACT_CALL'' then
            (case newContract cl (params step) of
               Some e \<Rightarrow> Some e
             | None \<Rightarrow>
                 (case submit cl s (params step) of
                    (Inl e, s1) \<Rightarrow> Some e
                  | (Inr hash, s1) \<Rightarrow> fst (wait cl s1 hash)))
          else None)"

text \<open>Example clients, schema entries and cases, for the concrete instances below.\<close>

definition rejecting_client :: "nat chain_client" where
  "rejecting_client =
     \<lparr> newContract = (\<lambda>p. None),
       submit = (\<lambda>s p. (Inl (Error ''execution reverted''), Suc s)),
       wait = (\<lambda>s hash. (None, s)),
       now = (\<lambda>s. s) \<rparr>"

definition confirming_client :: "nat chain_client" where
  "confirming_client =
     \<lparr> newContract = (\<lambda>p. None),
       submit = (\<lambda>s p. (Inr ''0xfeed'', Suc s)),
       wait = (\<lambda>s hash. (None, s)),
       now = (\<lambda>s. s) \<rparr>"

definition transfer_fn :: abi_item where
  "transfer_fn =
     \<lparr> item_type = Some ''function'', item_name = Some ''transfer'',
       stateMutability = Some ''nonpayable'',
       inputs = Some [\<lparr> input_type = Some ''address'' \<rparr>, \<lparr> input_type = Some ''uint256'' \<rparr>] \<rparr>"

definition balanceOf_fn :: abi_item where
  "balanceOf_fn =
     \<lparr> item_type = Some ''function'', item_name = Some ''balanceOf'',
       stateMutability = Some ''view'',
       inputs = Some [\<lparr> input_type = Some ''address'' \<rparr>] \<rparr>"

definition two_step_case :: test_case where
  "two_step_case =
     integration_case ''integration-1-abc'' ''step-write-1'' ''step-read-1''
       transfer_fn balanceOf_fn ''0x00000000000000000000000000000000000000aa''
       [JString ''0x0000000000000000000000000000000000000001'', JString ''1000000000000000000'']
       [JString ''0x0000000000000000000000000000000000000001'']"

definition pause_case :: test_case where
  "pause_case =
     \<lparr> case_id = ''manual-1'', case_name = ''Pause'', case_description = ''No contract call'',
       steps = [\<lparr> step_id = ''step-1'', action = ''SLEEP'',
                  params = \<lparr> p_method = None, p_contractAddress = [], p_args = [] \<rparr>,
                  step_description = ''Wait'' \<rparr>],
       expectedResult = ''Nothing happens'', actualResult = None, status = Pending \<rparr>"

section \<open>Properties of synthesis: definitions\<close>

text \<open>
  The cases of a result (none when the call faulted), an entry's parameters (none when it
  has no list), and two views of a case list: the calls of the cases of one kind, and for
  every case its kind with the methods its steps call.
\<close>

definition synthesized :: "js_error + test_case list \<times> 'w \<Rightarrow> test_case list" where
  "synthesized r = (case r of Inl e \<Rightarrow> [] | Inr (cs, w) \<Rightarrow> cs)"

definition is_function :: "abi_item \<Rightarrow> bool" where
  "is_function item = (item_type item = Some ''function'')"

definition inputs_of :: "abi_item \<Rightarrow> abi_input list" where
  "inputs_of item = (case inputs item of None \<Rightarrow> [] | Some xs \<Rightarrow> xs)"

definition calls_of :: "case_kind \<Rightarrow> test_case list \<Rightarrow> step_params list list" where
  "calls_of kind cs = map (\<lambda>c. map params (steps c)) (filter (\<lambda>c. case_kind c = Some kind) cs)"

definition shape :: "test_case \<Rightarrow> case_kind option \<times> string option list" where
  "shape c = (case_kind c, map (\<lambda>s. p_method (params s)) (steps c))"

text \<open>
  The kinds of cases that a function entry gives rise to, in the order of the generator's
  loop, and the integration case that the schema gives rise to.
\<close>

definition expected_shapes :: "abi_item \<Rightarrow> (case_kind option \<times> string option list) list" where
  "expected_shapes item =
     (if is_function item then
        [(Some (if stateMutability item = Some ''pure'' \<or> stateMutability item = Some ''view''
                then ReadCase else WriteCase), [item_name item])]
        @ (if list_ex integer_typed (inputs_of item)
           then [(Some BoundaryCase, [item_name item, item_name item])] else [])
        @ (if inputs_of item \<noteq> [] then [(Some FuzzCase, [item_name item])] else [])
      else [])"

definition expected_integration_shape ::
  "abi_item list \<Rightarrow> (case_kind option \<times> string option list) list" where
  "expected_integration_shape abi =
     (case (filter isWriteFunction abi, filter isReadFunction abi) of
        (writeFn # _, readFn # _) \<Rightarrow>
          [(Some IntegrationCase, [item_name writeFn, item_name readFn])]
      | _ \<Rightarrow> [])"

text \<open>
  The calls of the integration case: the first write function and then the first read
  function of the schema, in declaration order, with safe arguments.
\<close>

definition expected_integration ::
  "(string \<Rightarrow> string) \<Rightarrow> string \<Rightarrow> abi_item list \<Rightarrow> step_params list list" where
  "expected_integration k addr abi =
     (case (filter isWriteFunction abi, filter isReadFunction abi) of
        (writeFn # _, readFn # _) \<Rightarrow>
          [[\<lparr> p_method = item_name writeFn, p_contractAddress = addr,
               p_args = map (safe_arg k) (inputs_of writeFn) \<rparr>,
            \<lparr> p_method = item_name readFn, p_contractAddress = addr,
               p_args = map (safe_arg k) (inputs_of readFn) \<rparr>]]
      | _ \<Rightarrow> [])"

text \<open>
  The two calls of a boundary case, given the value \<open>pick\<close> chooses for a parameter on the
  minimum and on the maximum pass.
\<close>

definition has_integer_parameter :: "abi_item \<Rightarrow> bool" where
  "has_integer_parameter item = (is_function item \<and> list_ex integer_typed (inputs_of item))"

definition expected_boundary ::
  "(boundary \<Rightarrow> abi_input \<Rightarrow> js_value) \<Rightarrow> string \<Rightarrow> abi_item \<Rightarrow> step_params list" where
  "expected_boundary pick addr item =
     [\<lparr> p_method = item_name item, p_contractAddress = addr,
         p_args = map (pick Min) (inputs_of item) \<rparr>,
      \<lparr> p_method = item_name item, p_contractAddress = addr,
         p_args = map (pick Max) (inputs_of item) \<rparr>]"

text \<open>
  Two readings of "extreme value". \<open>extreme256\<close> takes the extremes of the 256-bit types
  whatever width the tag declares: 0 and \<open>2 ^ 256 - 1\<close> for a tag that starts with
  \<^verbatim>\<open>uint\<close>, \<open>- (2 ^ 255)\<close> and \<open>2 ^ 255 - 1\<close> for one that starts with \<^verbatim>\<open>int\<close>.
  \<open>declared_extreme\<close> follows the specification's words: the extremes of the width that
  the tag declares (\<^verbatim>\<open>uint8\<close>: 0 and 255), where a tag without a width stands for 256
  bits. Both give every other parameter the safe value.
\<close>

definition extreme256 :: "(string \<Rightarrow> string) \<Rightarrow> boundary \<Rightarrow> abi_input \<Rightarrow> js_value" where
  "extreme256 k b input =
     (case input_type input of
        None \<Rightarrow> safe_arg k input
      | Some t \<Rightarrow>
          if startsWith t ''uint''
            then JString (show_int (if b = Min then 0 else 2 ^ 256 - 1))
          else if startsWith t ''int''
            then JString (show_int (if b = Min then - (2 ^ 255) else 2 ^ 255 - 1))
          else safe_arg k input)"

definition digit_value :: "char \<Rightarrow> nat option" where
  "digit_value c =
     (let n = (of_char c :: nat) in if 48 \<le> n \<and> n \<le> 57 then Some (n - 48) else None)"

fun read_decimal :: "nat \<Rightarrow> string \<Rightarrow> nat option" where
  "read_decimal acc [] = Some acc"
| "read_decimal acc (c # cs) =
     (case digit_value c of None \<Rightarrow> None | Some d \<Rightarrow> read_decimal (10 * acc + d) cs)"

definition declared_width :: "string \<Rightarrow> nat option" where
  "declared_width suffix = (if suffix = [] then Some 256 else read_decimal 0 suffix)"

definition declared_extreme :: "(string \<Rightarrow> string) \<Rightarrow> boundary \<Rightarrow> abi_input \<Rightarrow> js_value" where
  "declared_extreme k b input =
     (case input_type input of
        None \<Rightarrow> safe_arg k input
      | Some t \<Rightarrow>
          if startsWith t ''uint'' then
            (case declared_width (drop 4 t) of
               None \<Rightarrow> safe_arg k input
             | Some n \<Rightarrow> JString (show_int (if b = Min then 0 else 2 ^ n - 1)))
          else if startsWith t ''int'' then
            (case declared_width (drop 3 t) of
               None \<Rightarrow> safe_arg k input
             | Some n \<Rightarrow>
                 JString (show_int (if b = Min then - (2 ^ (n - 1)) else 2 ^ (n - 1) - 1)))
          else safe_arg k input)"

text \<open>
  The specification's reading of "integer-typed": a tag \<^verbatim>\<open>uint\<close> or \<^verbatim>\<open>int\<close> followed by
  nothing or by a decimal width. A tag that merely starts so, such as \<^verbatim>\<open>uint256[]\<close>, is
  not integer-typed in this reading, and \<open>declared_extreme\<close> gives it the safe value.
  \<open>declared_boundary_calls\<close> are the calls of the boundary cases that the claim as stated
  asks for.
\<close>

definition declared_integer_typed :: "abi_input \<Rightarrow> bool" where
  "declared_integer_typed input =
     (case input_type input of
        None \<Rightarrow> False
      | Some t \<Rightarrow>
          if startsWith t ''uint'' then declared_width (drop 4 t) \<noteq> None
          else if startsWith t ''int'' then declared_width (drop 3 t) \<noteq> None
          else False)"

definition has_declared_integer_parameter :: "abi_item \<Rightarrow> bool" where
  "has_declared_integer_parameter item =
     (is_function item \<and> list_ex declared_integer_typed (inputs_of item))"

definition declared_boundary_calls ::
  "(string \<Rightarrow> string) \<Rightarrow> string \<Rightarrow> abi_item list \<Rightarrow> step_params list list" where
  "declared_boundary_calls k addr abi =
     map (expected_boundary (declared_extreme k) addr) (filter has_declared_integer_parameter abi)"

text \<open>A runtime, an address and schema entries for the concrete instances below.\<close>

definition rt0 :: "(nat, nat) runtime" where
  "rt0 =
     \<lparr> Date_now = (\<lambda>w. (1700000000000 + w, Suc w)),
       Math_random = (\<lambda>w. (w, Suc w)),
       toString36 = (\<lambda>d. ''0.k3j9x2m4q7'' @ replicate d CHR ''z''),
       toString10 = (\<lambda>d. ''0.4271'' @ replicate d CHR ''7''),
       floor_times = (\<lambda>d n. d mod n),
       greater_half = (\<lambda>d. odd d),
       ethers_id = (\<lambda>s. ''0x'' @ s),
       createRandom_address = (\<lambda>w. (''0x00000000000000000000000000000000000000bb'', Suc w)),
       randomBytes = (\<lambda>n w. (replicate n 0, Suc w)) \<rparr>"

definition addr0 :: string where
  "addr0 = ''0x00000000000000000000000000000000000000aa''"

definition setFee_fn :: abi_item where
  "setFee_fn =
     \<lparr> item_type = Some ''function'', item_name = Some ''setFee'',
       stateMutability = Some ''nonpayable'',
       inputs = Some [\<lparr> input_type = Some ''uint8'' \<rparr>] \<rparr>"

definition no_inputs_fn :: abi_item where
  "no_inputs_fn =
     \<lparr> item_type = Some ''function'', item_name = Some ''mint'',
       stateMutability = Some ''nonpayable'', inputs = None \<rparr>"

definition airdrop_fn :: abi_item where
  "airdrop_fn =
     \<lparr> item_type = Some ''function'', item_name = Some ''airdrop'',
       stateMutability = Some ''nonpayable'',
       inputs = Some [\<lparr> input_type = Some ''uint256'' \<rparr>, \<lparr> input_type = Some ''uint256[]'' \<rparr>] \<rparr>"

text \<open>
  A probe that resolves one registered name to an address with deployed code and throws on
  every other address.
\<close>

definition name_resolving_probe :: "string \<Rightarrow> js_error + string" where
  "name_resolving_probe a =
     (if a = ''uniswap.eth'' then Inr ''0x6080'' else Inl (Error ''could not resolve address''))"

section \<open>What the generator builds\<close>

text \<open>The kind and the structural content of what each constructor's literal builds.\<close>

lemma case_kind_builders:
  "case_kind (view_case cid sid item addr as) = Some ReadCase"
  "case_kind (write_case cid sid item addr as) = Some WriteCase"
  "case_kind (boundary_case cid s1 s2 item addr lo hi) = Some BoundaryCase"
  "case_kind (fuzz_case cid sid item addr as) = Some FuzzCase"
  "case_kind (integration_case cid s1 s2 wfn rfn addr was ras) = Some IntegrationCase"
  by (simp_all add: case_kind_def view_case_def write_case_def boundary_case_def fuzz_case_def
      integration_case_def kind_of_name_def startsWith_def)

lemma structural_content_view:
  "structural_content (view_case cid sid item addr as) = view_case [] [] item addr as"
  by (simp add: structural_content_def case_kind_builders) (simp add: view_case_def blank_step_def)

lemma structural_content_write:
  "structural_content (write_case cid sid item addr as) = write_case [] [] item addr as"
  by (simp add: structural_content_def case_kind_builders) (simp add: write_case_def blank_step_def)

lemma structural_content_boundary:
  "structural_content (boundary_case cid s1 s2 item addr lo hi) = boundary_case [] [] [] item addr lo hi"
  by (simp add: structural_content_def case_kind_builders) (simp add: boundary_case_def blank_step_def)

lemma structural_content_fuzz:
  "structural_content (fuzz_case cid sid item addr as) = fuzz_case [] [] item addr (map (\<lambda>v. JString []) as)"
  by (simp add: structural_content_def case_kind_builders) (simp add: fuzz_case_def blank_step_def)

lemma structural_content_integration:
  "structural_content (integration_case cid s1 s2 wfn rfn addr was ras) = integration_case [] [] [] wfn rfn addr was ras"
  by (simp add: structural_content_def case_kind_builders) (simp add: integration_case_def blank_step_def)

text \<open>
  The argument lists. On typed inputs the boundary pass and the integer test run through;
  an input without a type tag makes the boundary pass throw, and the integer test cannot
  answer "no" by passing over it.
\<close>

lemma map_throwing_boundary:
  "list_all typed xs \<Longrightarrow> map_throwing (boundary_arg k b) xs = Inr (map (boundary_pick k b) xs)"
  by (induction xs) (auto simp: typed_def boundary_arg_def boundary_pick_def and_then_def)

lemma map_throwing_boundary_fault:
  "\<not> list_all typed xs \<Longrightarrow> isl (map_throwing (boundary_arg k b) xs)"
  by (induction xs) (auto simp: typed_def boundary_arg_def and_then_def split: sum.splits)

lemma some_throwing_integer:
  "list_all typed xs \<Longrightarrow> some_throwing isIntegerInput xs = Inr (list_ex integer_typed xs)"
  by (induction xs) (auto simp: typed_def isIntegerInput_def integer_typed_def and_then_def)

lemma some_throwing_untyped:
  "\<not> list_all typed xs \<Longrightarrow> some_throwing isIntegerInput xs \<noteq> Inr False"
  by (induction xs) (auto simp: typed_def isIntegerInput_def and_then_def split: option.splits)

lemma blank_map_drawing:
  "map (\<lambda>v. JString []) (fst (map_drawing f xs w)) = map (\<lambda>i. JString []) xs"
  by (induction xs arbitrary: w) (simp_all add: case_prod_beta)

text \<open>The outcome of each constructor, whatever the clock and the random source give.\<close>

lemma outcome1_view:
  "outcome1 (createViewFunctionTest rt item addr w) =
     (case inputs item of None \<Rightarrow> None
      | Some xs \<Rightarrow> Some (view_case [] [] item addr (map (safe_arg (ethers_id rt)) xs)))"
  by (simp add: outcome1_def createViewFunctionTest_def generateSafeArgs_def and_then_def
      case_prod_beta structural_content_view split: option.splits)

lemma outcome1_write:
  "outcome1 (createWriteFunctionTest rt item addr w) =
     (case inputs item of None \<Rightarrow> None
      | Some xs \<Rightarrow> Some (write_case [] [] item addr (map (safe_arg (ethers_id rt)) xs)))"
  by (simp add: outcome1_def createWriteFunctionTest_def generateSafeArgs_def and_then_def
      case_prod_beta structural_content_write split: option.splits)

lemma outcome1_boundary:
  "inputs item = Some xs \<Longrightarrow> list_all typed xs \<Longrightarrow>
   outcome1 (createBoundaryTest rt item addr w) =
     Some (boundary_case [] [] [] item addr
             (map (boundary_pick (ethers_id rt) Min) xs)
             (map (boundary_pick (ethers_id rt) Max) xs))"
  by (simp add: outcome1_def createBoundaryTest_def generateBoundaryArgs_def map_throwing_boundary
      and_then_def case_prod_beta structural_content_boundary)

lemma outcome1_boundary_fault:
  "inputs item = Some xs \<Longrightarrow> \<not> list_all typed xs \<Longrightarrow>
   outcome1 (createBoundaryTest rt item addr w) = None"
  using map_throwing_boundary_fault [of xs "ethers_id rt" Min]
  by (auto simp add: outcome1_def createBoundaryTest_def generateBoundaryArgs_def
      and_then_def case_prod_beta isl_def)

lemma outcome1_fuzz:
  "outcome1 (createFuzzingTest rt item addr w) =
     (case inputs item of None \<Rightarrow> None
      | Some xs \<Rightarrow> Some (fuzz_case [] [] item addr (map (\<lambda>i. JString []) xs)))"
  by (simp add: outcome1_def createFuzzingTest_def generateFuzzedArgs_def and_then_def
      case_prod_beta structural_content_fuzz blank_map_drawing split: option.splits)

text \<open>One pass of the loop: by the kind of entry, then for any entry.\<close>

lemma item_cases_not_function:
  "item_type item \<noteq> Some ''function'' \<Longrightarrow> item_cases rt addr item w = Inr ([], w)"
  by (simp add: item_cases_def)

lemma item_cases_no_inputs:
  assumes "item_type item = Some ''function''" "inputs item = None"
  shows "outcome (item_cases rt addr item w) = None"
proof -
  have "outcome1 (createViewFunctionTest rt item addr w) = None"
    "outcome1 (createWriteFunctionTest rt item addr w) = None"
    using assms by (simp_all add: outcome1_view outcome1_write)
  then obtain e1 e2 where "createViewFunctionTest rt item addr w = Inl e1"
    "createWriteFunctionTest rt item addr w = Inl e2"
    by (auto simp: outcome1_def split: sum.splits)
  then show ?thesis
    using assms by (simp add: item_cases_def and_then_def outcome_def)
qed

lemma outcome1_read_or_write:
  "inputs item = Some xs \<Longrightarrow>
   outcome1 (read_or_write rt item addr w) =
     Some (if stateMutability item = Some ''view'' \<or> stateMutability item = Some ''pure''
           then view_case [] [] item addr (map (safe_arg (ethers_id rt)) xs)
           else write_case [] [] item addr (map (safe_arg (ethers_id rt)) xs))"
  by (simp add: read_or_write_def outcome1_view outcome1_write)

lemma and_then_simps:
  "and_then (Inl e) f = Inl e"
  "and_then (Inr x) f = f x"
  by (simp_all add: and_then_def)

lemma item_cases_unfold:
  assumes "item_type item = Some ''function''" "inputs item = Some xs"
    and "read_or_write rt item addr w = Inr (c1, w1)"
  shows "item_cases rt addr item w =
     and_then (some_throwing isIntegerInput xs) (\<lambda>numeric.
       and_then
         (if numeric
          then and_then (createBoundaryTest rt item addr w1) (\<lambda>(c2, w2). Inr ([c2], w2))
          else Inr ([], w1))
         (\<lambda>(bs, w2).
            and_then
              (if xs \<noteq> []
               then and_then (createFuzzingTest rt item addr w2) (\<lambda>(c3, w3). Inr ([c3], w3))
               else Inr ([], w2))
              (\<lambda>(fs, w3). Inr (c1 # bs @ fs, w3))))"
  using assms
  by (simp add: item_cases_def read_or_write_def hasIntegerInput_def hasInputs_def and_then_def
      split: if_splits)

lemma fuzz_part:
  assumes "inputs item = Some xs"
  shows "\<exists>fs w3.
     (if xs \<noteq> []
      then and_then (createFuzzingTest rt item addr w2) (\<lambda>(c3, w3). Inr ([c3], w3))
      else Inr ([], w2)) = Inr (fs, w3)
     \<and> map structural_content fs =
         (if xs \<noteq> [] then [fuzz_case [] [] item addr (map (\<lambda>i. JString []) xs)] else [])"
proof (cases "xs = []")
  case True
  then show ?thesis by simp
next
  case False
  have "outcome1 (createFuzzingTest rt item addr w2) =
          Some (fuzz_case [] [] item addr (map (\<lambda>i. JString []) xs))"
    using assms by (simp add: outcome1_fuzz)
  then obtain c3 w3 where "createFuzzingTest rt item addr w2 = Inr (c3, w3)"
    "structural_content c3 = fuzz_case [] [] item addr (map (\<lambda>i. JString []) xs)"
    by (auto simp: outcome1_def split: sum.splits)
  with False show ?thesis by (simp add: and_then_def)
qed

lemma boundary_part:
  assumes "inputs item = Some xs" "list_all typed xs"
  shows "\<exists>bs w2.
     (if list_ex integer_typed xs
      then and_then (createBoundaryTest rt item addr w1) (\<lambda>(c2, w2). Inr ([c2], w2))
      else Inr ([], w1)) = Inr (bs, w2)
     \<and> map structural_content bs =
         (if list_ex integer_typed xs
          then [boundary_case [] [] [] item addr
                  (map (boundary_pick (ethers_id rt) Min) xs)
                  (map (boundary_pick (ethers_id rt) Max) xs)]
          else [])"
proof (cases "list_ex integer_typed xs")
  case False
  then show ?thesis by simp
next
  case True
  have "outcome1 (createBoundaryTest rt item addr w1) =
          Some (boundary_case [] [] [] item addr
                  (map (boundary_pick (ethers_id rt) Min) xs)
                  (map (boundary_pick (ethers_id rt) Max) xs))"
    using assms by (simp add: outcome1_boundary)
  then obtain c2 w2 where "createBoundaryTest rt item addr w1 = Inr (c2, w2)"
    "structural_content c2 = boundary_case [] [] [] item addr
                  (map (boundary_pick (ethers_id rt) Min) xs)
                  (map (boundary_pick (ethers_id rt) Max) xs)"
    by (auto simp: outcome1_def split: sum.splits)
  with True show ?thesis by (simp add: and_then_def)
qed

lemma item_cases_function:
  assumes fn: "item_type item = Some ''function''" and ins: "inputs item = Some xs"
  shows "outcome (item_cases rt addr item w) =
           (if list_all typed xs then Some (item_skeleton (ethers_id rt) addr item) else None)"
proof -
  from outcome1_read_or_write [OF ins, of rt addr w]
  obtain c1 w1 where rw: "read_or_write rt item addr w = Inr (c1, w1)"
    and c1: "structural_content c1 =
      (if stateMutability item = Some ''view'' \<or> stateMutability item = Some ''pure''
       then view_case [] [] item addr (map (safe_arg (ethers_id rt)) xs)
       else write_case [] [] item addr (map (safe_arg (ethers_id rt)) xs))"
    by (auto simp: outcome1_def split: sum.splits)
  note unfold = item_cases_unfold [OF fn ins rw]
  show ?thesis
  proof (cases "list_all typed xs")
    case True
    from boundary_part [OF ins True, of rt addr w1]
    obtain bs w2 where bs: "(if list_ex integer_typed xs
      then and_then (createBoundaryTest rt item addr w1) (\<lambda>(c2, w2). Inr ([c2], w2))
      else Inr ([], w1)) = Inr (bs, w2)"
      and bs_content: "map structural_content bs =
         (if list_ex integer_typed xs
          then [boundary_case [] [] [] item addr
                  (map (boundary_pick (ethers_id rt) Min) xs)
                  (map (boundary_pick (ethers_id rt) Max) xs)]
          else [])"
      by blast
    from fuzz_part [OF ins, of rt addr w2]
    obtain fs w3 where fs: "(if xs \<noteq> []
      then and_then (createFuzzingTest rt item addr w2) (\<lambda>(c3, w3). Inr ([c3], w3))
      else Inr ([], w2)) = Inr (fs, w3)"
      and fs_content: "map structural_content fs =
         (if xs \<noteq> [] then [fuzz_case [] [] item addr (map (\<lambda>i. JString []) xs)] else [])"
      by blast
    have "item_cases rt addr item w = Inr (c1 # bs @ fs, w3)"
      unfolding unfold some_throwing_integer [OF True]
      by (simp only: and_then_simps bs fs prod.case)
    then have "outcome (item_cases rt addr item w) =
        Some (structural_content c1 # map structural_content bs @ map structural_content fs)"
      by (simp add: outcome_def)
    also have "\<dots> = Some (item_skeleton (ethers_id rt) addr item)"
      unfolding c1 bs_content fs_content using fn ins by (simp add: item_skeleton_def)
    finally show ?thesis using True by simp
  next
    case False
    have "isl (item_cases rt addr item w)"
    proof (cases "some_throwing isIntegerInput xs")
      case (Inl e)
      then show ?thesis unfolding unfold by (simp add: and_then_def)
    next
      case (Inr numeric)
      with some_throwing_untyped [OF False] have numeric: "numeric" by auto
      from outcome1_boundary_fault [OF ins False, of rt addr w1]
      obtain e where "createBoundaryTest rt item addr w1 = Inl e"
        by (auto simp: outcome1_def split: sum.splits)
      then show ?thesis unfolding unfold Inr using numeric by (simp add: and_then_def)
    qed
    then show ?thesis using False by (auto simp: outcome_def isl_def)
  qed
qed

lemma outcome_item_cases:
  "outcome (item_cases rt addr item w) =
     (if well_formed_item item then Some (item_skeleton (ethers_id rt) addr item) else None)"
proof (cases "item_type item = Some ''function''")
  case False
  then show ?thesis
    by (simp add: item_cases_not_function outcome_def well_formed_item_def item_skeleton_def)
next
  case True
  show ?thesis
  proof (cases "inputs item")
    case None
    with True show ?thesis by (simp add: item_cases_no_inputs well_formed_item_def)
  next
    case (Some xs)
    with True show ?thesis by (simp add: item_cases_function well_formed_item_def)
  qed
qed

text \<open>The loop, the integration cases and the whole call.\<close>

lemma outcome_test_loop:
  "outcome (test_loop rt addr items acc w) =
     (if list_all well_formed_item items
      then Some (map structural_content acc @ concat (map (item_skeleton (ethers_id rt) addr) items))
      else None)"
proof (induction items arbitrary: acc w)
  case Nil
  then show ?case by (simp add: outcome_def)
next
  case (Cons item rest)
  show ?case
  proof (cases "item_cases rt addr item w")
    case (Inl e)
    with outcome_item_cases [of rt addr item w] have "\<not> well_formed_item item"
      by (auto simp: outcome_def split: if_splits)
    with Inl show ?thesis by (simp add: and_then_def outcome_def)
  next
    case (Inr p)
    obtain cs w1 where p: "p = (cs, w1)" by (cases p)
    with Inr outcome_item_cases [of rt addr item w]
    have wf: "well_formed_item item"
      and cs: "map structural_content cs = item_skeleton (ethers_id rt) addr item"
      by (auto simp: outcome_def split: if_splits)
    have "test_loop rt addr (item # rest) acc w = test_loop rt addr rest (acc @ cs) w1"
      using Inr p by (simp add: and_then_def)
    then show ?thesis using wf cs Cons.IH [of "acc @ cs" w1] by simp
  qed
qed

lemma well_formed_function_inputs:
  "well_formed_item item \<Longrightarrow> item_type item = Some ''function'' \<Longrightarrow> \<exists>xs. inputs item = Some xs"
  by (auto simp: well_formed_item_def split: option.splits)

lemma filter_head_member: "filter P xs = y # ys \<Longrightarrow> y \<in> set xs \<and> P y"
proof -
  assume "filter P xs = y # ys"
  then have "y \<in> set (filter P xs)" by simp
  then show ?thesis by simp
qed

lemma outcome_integration:
  assumes "list_all well_formed_item abi"
  shows "outcome (generateIntegrationTests rt abi addr w) =
           Some (integration_skeleton (ethers_id rt) addr abi)"
proof (cases "filter isWriteFunction abi")
  case Nil
  then show ?thesis
    by (simp add: generateIntegrationTests_def integration_skeleton_def outcome_def)
next
  case wr: (Cons writeFn wrest)
  show ?thesis
  proof (cases "filter isReadFunction abi")
    case Nil
    with wr show ?thesis
      by (simp add: generateIntegrationTests_def integration_skeleton_def outcome_def)
  next
    case rd: (Cons readFn rrest)
    from filter_head_member [OF wr] assms
    have "well_formed_item writeFn" "item_type writeFn = Some ''function''"
      by (auto simp: list_all_iff isWriteFunction_def)
    then obtain ws where ws: "inputs writeFn = Some ws"
      using well_formed_function_inputs by blast
    from filter_head_member [OF rd] assms
    have "well_formed_item readFn" "item_type readFn = Some ''function''"
      by (auto simp: list_all_iff isReadFunction_def)
    then obtain rs where rs: "inputs readFn = Some rs"
      using well_formed_function_inputs by blast
    show ?thesis
      by (simp add: generateIntegrationTests_def integration_skeleton_def wr rd ws rs
          generateSafeArgs_def and_then_simps case_prod_beta outcome_def
          structural_content_integration)
  qed
qed

lemma outcome_generateTestCases:
  "outcome (generateTestCases rt abi addr w) =
     (if list_all well_formed_item abi then Some (skeleton (ethers_id rt) addr abi) else None)"
proof (cases "test_loop rt addr abi [] w")
  case (Inl e)
  with outcome_test_loop [of rt addr abi "[]" w] have "\<not> list_all well_formed_item abi"
    by (auto simp: outcome_def split: if_splits)
  with Inl show ?thesis by (simp add: generateTestCases_def and_then_simps outcome_def)
next
  case (Inr p)
  obtain cs w1 where p: "p = (cs, w1)" by (cases p)
  with Inr outcome_test_loop [of rt addr abi "[]" w]
  have wf: "list_all well_formed_item abi"
    and cs: "map structural_content cs = concat (map (item_skeleton (ethers_id rt) addr) abi)"
    by (auto simp: outcome_def split: if_splits)
  from outcome_integration [OF wf, of rt addr w1]
  obtain its w2 where its: "generateIntegrationTests rt abi addr w1 = Inr (its, w2)"
    and its_content: "map structural_content its = integration_skeleton (ethers_id rt) addr abi"
    by (auto simp: outcome_def split: sum.splits)
  have "generateTestCases rt abi addr w = Inr (cs @ its, w2)"
    using Inr p its by (simp add: generateTestCases_def and_then_simps)
  then show ?thesis using wf cs its_content by (simp add: outcome_def skeleton_def)
qed

section \<open>Views of the synthesized cases\<close>

text \<open>Decimal digits of small numbers, and a bound that tells large numbers from them.\<close>

lemma show_nat_small: "n < 10 \<Longrightarrow> show_nat n = [digit_char n]"
  by (simp add: show_nat.simps)

lemma show_nat_big: "\<not> n < 10 \<Longrightarrow> show_nat n = show_nat (n div 10) @ [digit_char (n mod 10)]"
  by (subst show_nat.simps) simp

lemma show_int_0: "show_int 0 = ''0''"
  by (simp add: show_int_def show_nat_small digit_char_def)

lemma show_int_255: "show_int 255 = ''255''"
  by (simp add: show_int_def show_nat_small show_nat_big digit_char_def)

lemma safe_uint256: "safe_arg k \<lparr> input_type = Some ''uint256'' \<rparr> = JString ''1000000000000000000''"
  by (simp add: safe_arg_def parseUnits_ether_def show_int_def show_nat_small show_nat_big digit_char_def)

lemma length_show_nat_pos: "0 < length (show_nat n)"
  by (subst show_nat.simps) simp

lemma length_show_nat_big: "1000 \<le> n \<Longrightarrow> 4 \<le> length (show_nat n)"
proof -
  assume n: "1000 \<le> n"
  have a: "show_nat n = show_nat (n div 10) @ [digit_char (n mod 10)]"
    using n by (simp add: show_nat_big)
  have b: "show_nat (n div 10) = show_nat (n div 10 div 10) @ [digit_char (n div 10 mod 10)]"
    using n by (simp add: show_nat_big)
  have c: "show_nat (n div 10 div 10) =
             show_nat (n div 10 div 10 div 10) @ [digit_char (n div 10 div 10 mod 10)]"
    using n by (simp add: show_nat_big)
  have "length (show_nat n) = length (show_nat (n div 10 div 10 div 10)) + 3"
    by (simp add: a b c)
  with length_show_nat_pos [of "n div 10 div 10 div 10"] show ?thesis by linarith
qed

lemma show_int_MaxUint256_not_255: "show_int MaxUint256 \<noteq> show_int 255"
proof -
  have "4 \<le> length (show_int MaxUint256)"
    using length_show_nat_big [of "nat MaxUint256"] by (simp add: show_int_def MaxUint256_def)
  moreover have "length (show_int 255) = 3" by (simp add: show_int_255)
  ultimately show ?thesis by auto
qed

text \<open>
  Blanking identifiers changes neither the kind of a case nor the methods it calls, nor the
  calls of a case that is not a fuzz case; so these views of the synthesized cases can be
  read off the blank cases.
\<close>

lemma case_kind_structural_content [simp]: "case_kind (structural_content c) = case_kind c"
  by (simp add: case_kind_def structural_content_def)

lemma shape_structural_content [simp]: "shape (structural_content c) = shape c"
  by (simp add: shape_def structural_content_def blank_step_def case_kind_def comp_def)

lemma params_structural_content:
  "case_kind c \<noteq> Some FuzzCase \<Longrightarrow>
   map params (steps (structural_content c)) = map params (steps c)"
  by (simp add: structural_content_def blank_step_def comp_def)

lemma calls_of_structural_content:
  "kind \<noteq> FuzzCase \<Longrightarrow> calls_of kind (map structural_content cs) = calls_of kind cs"
  by (induction cs) (auto simp: calls_of_def params_structural_content)

lemma calls_of_append: "calls_of kind (xs @ ys) = calls_of kind xs @ calls_of kind ys"
  by (simp add: calls_of_def)

lemma calls_of_concat: "calls_of kind (concat xss) = concat (map (calls_of kind) xss)"
  by (induction xss) (simp_all add: calls_of_append, simp add: calls_of_def)

lemma outcome_synthesized:
  "outcome r = Some sk \<Longrightarrow> \<not> isl r \<and> map structural_content (synthesized r) = sk"
  by (auto simp: outcome_def synthesized_def split: sum.splits)

lemma synthesized_well_formed:
  assumes "list_all well_formed_item abi"
  shows "\<not> isl (generateTestCases rt abi addr w)"
    and "map structural_content (synthesized (generateTestCases rt abi addr w))
           = skeleton (ethers_id rt) addr abi"
  using outcome_synthesized [of "generateTestCases rt abi addr w" "skeleton (ethers_id rt) addr abi"]
    assms by (simp_all add: outcome_generateTestCases)

lemma calls_of_synthesized:
  assumes "list_all well_formed_item abi" "kind \<noteq> FuzzCase"
  shows "calls_of kind (synthesized (generateTestCases rt abi addr w))
           = calls_of kind (skeleton (ethers_id rt) addr abi)"
  using calls_of_structural_content [OF assms(2),
      of "synthesized (generateTestCases rt abi addr w)"]
    synthesized_well_formed(2) [OF assms(1), of rt addr w]
  by simp

lemma shapes_synthesized:
  assumes "list_all well_formed_item abi"
  shows "map shape (synthesized (generateTestCases rt abi addr w))
           = map shape (skeleton (ethers_id rt) addr abi)"
proof -
  have "map shape (synthesized (generateTestCases rt abi addr w))
          = map shape (map structural_content (synthesized (generateTestCases rt abi addr w)))"
    by (simp add: comp_def)
  then show ?thesis by (simp only: synthesized_well_formed(2) [OF assms])
qed

text \<open>The views of the blank cases, entry by entry.\<close>

lemma shape_builders:
  "shape (view_case cid sid item addr as) = (Some ReadCase, [item_name item])"
  "shape (write_case cid sid item addr as) = (Some WriteCase, [item_name item])"
  "shape (boundary_case cid s1 s2 item addr lo hi) = (Some BoundaryCase, [item_name item, item_name item])"
  "shape (fuzz_case cid sid item addr as) = (Some FuzzCase, [item_name item])"
  "shape (integration_case cid s1 s2 wfn rfn addr was ras) =
     (Some IntegrationCase, [item_name wfn, item_name rfn])"
  by (simp_all add: shape_def case_kind_builders)
    (simp_all add: view_case_def write_case_def boundary_case_def fuzz_case_def
      integration_case_def)

lemma concat_map_if: "concat (map (\<lambda>x. if P x then [f x] else []) xs) = map f (filter P xs)"
  by (induction xs) simp_all

lemma concat_map_empty: "(\<And>x. x \<in> set xs \<Longrightarrow> f x = []) \<Longrightarrow> concat (map f xs) = []"
  by (induction xs) simp_all

lemma item_skeleton_not_function:
  "item_type item \<noteq> Some ''function'' \<Longrightarrow> item_skeleton k addr item = []"
  by (simp add: item_skeleton_def)

lemma item_skeleton_no_inputs: "inputs item = None \<Longrightarrow> item_skeleton k addr item = []"
  by (simp add: item_skeleton_def cong: if_cong)

lemma item_skeleton_function:
  "item_type item = Some ''function'' \<Longrightarrow> inputs item = Some xs \<Longrightarrow>
   item_skeleton k addr item =
     [if stateMutability item = Some ''view'' \<or> stateMutability item = Some ''pure''
      then view_case [] [] item addr (map (safe_arg k) xs)
      else write_case [] [] item addr (map (safe_arg k) xs)]
     @ (if list_ex integer_typed xs
        then [boundary_case [] [] [] item addr
                (map (boundary_pick k Min) xs) (map (boundary_pick k Max) xs)]
        else [])
     @ (if xs \<noteq> [] then [fuzz_case [] [] item addr (map (\<lambda>i. JString []) xs)] else [])"
  by (simp add: item_skeleton_def)

lemma shapes_item:
  "well_formed_item item \<Longrightarrow> map shape (item_skeleton k addr item) = expected_shapes item"
proof (cases "item_type item = Some ''function''")
  case False
  then show ?thesis
    by (simp add: item_skeleton_not_function expected_shapes_def is_function_def)
next
  case True
  assume "well_formed_item item"
  with True obtain xs where "inputs item = Some xs"
    using well_formed_function_inputs by blast
  with True show ?thesis
    by (simp add: item_skeleton_function expected_shapes_def shape_builders
        is_function_def inputs_of_def)
qed

lemma shapes_integration:
  assumes "list_all well_formed_item abi"
  shows "map shape (integration_skeleton k addr abi) = expected_integration_shape abi"
proof (cases "filter isWriteFunction abi")
  case Nil
  then show ?thesis
    by (simp add: integration_skeleton_def expected_integration_shape_def)
next
  case wr: (Cons writeFn wrest)
  show ?thesis
  proof (cases "filter isReadFunction abi")
    case Nil
    with wr show ?thesis
      by (simp add: integration_skeleton_def expected_integration_shape_def)
  next
    case rd: (Cons readFn rrest)
    from filter_head_member [OF wr] assms
    have "well_formed_item writeFn" "item_type writeFn = Some ''function''"
      by (auto simp: list_all_iff isWriteFunction_def)
    then obtain ws where ws: "inputs writeFn = Some ws"
      using well_formed_function_inputs by blast
    from filter_head_member [OF rd] assms
    have "well_formed_item readFn" "item_type readFn = Some ''function''"
      by (auto simp: list_all_iff isReadFunction_def)
    then obtain rs where rs: "inputs readFn = Some rs"
      using well_formed_function_inputs by blast
    show ?thesis
      by (simp add: integration_skeleton_def expected_integration_shape_def wr rd ws rs
          shape_builders)
  qed
qed

lemma shapes_skeleton:
  assumes "list_all well_formed_item abi"
  shows "map shape (skeleton k addr abi)
           = concat (map expected_shapes abi) @ expected_integration_shape abi"
proof -
  have "concat (map (map shape) (map (item_skeleton k addr) abi))
          = concat (map expected_shapes abi)"
    using assms by (induction abi) (simp_all add: shapes_item)
  then show ?thesis
    by (simp add: skeleton_def map_concat shapes_integration [OF assms])
qed

lemma integration_calls_item: "calls_of IntegrationCase (item_skeleton k addr item) = []"
proof (cases "inputs item")
  case None
  then show ?thesis by (simp add: calls_of_def item_skeleton_def cong: if_cong)
next
  case (Some xs)
  then show ?thesis
    by (simp add: calls_of_def item_skeleton_def case_kind_builders cong: if_cong)
qed

lemma integration_calls_integration:
  assumes "list_all well_formed_item abi"
  shows "calls_of IntegrationCase (integration_skeleton k addr abi) = expected_integration k addr abi"
proof (cases "filter isWriteFunction abi")
  case Nil
  then show ?thesis
    by (simp add: integration_skeleton_def expected_integration_def calls_of_def)
next
  case wr: (Cons writeFn wrest)
  show ?thesis
  proof (cases "filter isReadFunction abi")
    case Nil
    with wr show ?thesis
      by (simp add: integration_skeleton_def expected_integration_def calls_of_def)
  next
    case rd: (Cons readFn rrest)
    from filter_head_member [OF wr] assms
    have "well_formed_item writeFn" "item_type writeFn = Some ''function''"
      by (auto simp: list_all_iff isWriteFunction_def)
    then obtain ws where ws: "inputs writeFn = Some ws"
      using well_formed_function_inputs by blast
    from filter_head_member [OF rd] assms
    have "well_formed_item readFn" "item_type readFn = Some ''function''"
      by (auto simp: list_all_iff isReadFunction_def)
    then obtain rs where rs: "inputs readFn = Some rs"
      using well_formed_function_inputs by blast
    show ?thesis
      by (simp add: integration_skeleton_def expected_integration_def wr rd ws rs calls_of_def
          case_kind_builders inputs_of_def)
        (simp add: integration_case_def)
  qed
qed

lemma integration_calls_skeleton:
  assumes "list_all well_formed_item abi"
  shows "calls_of IntegrationCase (skeleton k addr abi) = expected_integration k addr abi"
proof -
  have "concat (map (calls_of IntegrationCase) (map (item_skeleton k addr) abi)) = []"
    by (rule concat_map_empty) (auto simp: integration_calls_item)
  then show ?thesis
    by (simp add: skeleton_def calls_of_append calls_of_concat
        integration_calls_integration [OF assms])
qed

lemma boundary_calls_item:
  "calls_of BoundaryCase (item_skeleton k addr item) =
     (if has_integer_parameter item then [expected_boundary (boundary_pick k) addr item] else [])"
proof (cases "item_type item = Some ''function''")
  case False
  then show ?thesis
    by (simp add: item_skeleton_not_function calls_of_def has_integer_parameter_def
        is_function_def)
next
  case fn: True
  show ?thesis
  proof (cases "inputs item")
    case None
    then show ?thesis
      by (simp add: item_skeleton_no_inputs calls_of_def has_integer_parameter_def inputs_of_def)
  next
    case (Some xs)
    have steps: "map params (steps (boundary_case [] [] [] item addr
                    (map (boundary_pick k Min) xs) (map (boundary_pick k Max) xs)))
                 = expected_boundary (boundary_pick k) addr item"
      using Some by (simp add: boundary_case_def expected_boundary_def inputs_of_def)
    have int: "has_integer_parameter item = list_ex integer_typed xs"
      using fn Some by (simp add: has_integer_parameter_def is_function_def inputs_of_def)
    show ?thesis
      unfolding item_skeleton_function [OF fn Some] int
      by (simp add: calls_of_def case_kind_builders steps)
  qed
qed

lemma boundary_calls_integration: "calls_of BoundaryCase (integration_skeleton k addr abi) = []"
  by (simp add: calls_of_def integration_skeleton_def case_kind_builders
      split: list.splits option.splits)

lemma boundary_calls_skeleton:
  "calls_of BoundaryCase (skeleton k addr abi) =
     map (expected_boundary (boundary_pick k) addr) (filter has_integer_parameter abi)"
  by (simp add: skeleton_def calls_of_append calls_of_concat boundary_calls_integration comp_def
      boundary_calls_item concat_map_if)

lemma boundary_pick_extreme256:
  "typed input \<Longrightarrow> boundary_pick k b input = extreme256 k b input"
  by (cases b)
    (auto simp: typed_def boundary_pick_def extreme256_def boundary_value_def MaxUint256_def
      MinInt256_def MaxInt256_def show_int_0)

lemma expected_boundary_extreme256:
  assumes "well_formed_item item" "is_function item"
  shows "expected_boundary (boundary_pick k) addr item = expected_boundary (extreme256 k) addr item"
proof -
  have "list_all typed (inputs_of item)"
    using assms
    by (auto simp: well_formed_item_def inputs_of_def is_function_def split: option.splits)
  then have "map (boundary_pick k b) (inputs_of item) = map (extreme256 k b) (inputs_of item)" for b
    by (simp add: list_all_iff boundary_pick_extreme256)
  then show ?thesis by (simp add: expected_boundary_def)
qed






lemma isl_outcome: "isl r = (outcome r = None)"
  by (cases r) (auto simp: outcome_def)

lemma well_formed_examples:
  "well_formed_item balanceOf_fn" "well_formed_item transfer_fn" "well_formed_item setFee_fn"
  "\<not> well_formed_item no_inputs_fn"
  by (simp_all add: well_formed_item_def balanceOf_fn_def transfer_fn_def setFee_fn_def
      no_inputs_fn_def typed_def)

text \<open>
  The call throws exactly when some function entry is malformed, and then leaves no case.
\<close>

lemma synthesized_isl: "isl r \<Longrightarrow> synthesized r = []"
  by (cases r) (simp_all add: synthesized_def)

lemma generateTestCases_faults_iff:
  "isl (generateTestCases rt abi addr w) = (\<not> list_all well_formed_item abi)"
  by (simp add: isl_outcome outcome_generateTestCases)

lemma synthesized_malformed:
  "\<not> list_all well_formed_item abi \<Longrightarrow> synthesized (generateTestCases rt abi addr w) = []"
  by (simp add: synthesized_isl generateTestCases_faults_iff)

lemma well_formed_airdrop: "well_formed_item airdrop_fn"
  by (simp add: well_formed_item_def airdrop_fn_def typed_def)

lemma boundary_calls_single:
  assumes "well_formed_item item" "has_integer_parameter item"
  shows "calls_of BoundaryCase (synthesized (generateTestCases rt [item] addr w))
           = [expected_boundary (boundary_pick (ethers_id rt)) addr item]"
proof -
  have wf: "list_all well_formed_item [item]" using assms(1) by simp
  show ?thesis
    by (simp add: calls_of_synthesized [OF wf] boundary_calls_skeleton assms(2))
qed

section \<open>Cases per schema entry\<close>

text \<open>
  A schema, an array of entry objects, is well formed when every entry that is classified
  as a function has its list of inputs and every input has a type tag
  (\<open>list_all well_formed_item\<close>).

  Claim C5, amended. For every well-formed schema the generator returns, and its cases
  are, entry by entry in schema order: for a function entry exactly one read case
  (mutability pure or view) or else exactly one write case, with exactly one step, which
  calls the function; then one boundary case if a type tag of it starts with \<^verbatim>\<open>uint\<close> or
  \<^verbatim>\<open>int\<close>; then exactly one fuzz case with exactly one step if it has at least one
  parameter; for an entry that is not a function, no case. The integration case, if any,
  follows. For a schema that is not well formed the call faults and yields no case for any
  entry.
\<close>

theorem cases_per_schema_entry:
  "isl (generateTestCases rt abi addr w) = (\<not> list_all well_formed_item abi)
   \<and> map shape (synthesized (generateTestCases rt abi addr w))
       = (if list_all well_formed_item abi
          then concat (map expected_shapes abi) @ expected_integration_shape abi
          else [])"
proof (cases "list_all well_formed_item abi")
  case True
  then show ?thesis
    using shapes_synthesized [OF True, of rt addr w] shapes_skeleton [OF True, of "ethers_id rt" addr]
    by (simp add: generateTestCases_faults_iff)
next
  case False
  then show ?thesis
    by (simp add: generateTestCases_faults_iff synthesized_malformed)
qed

theorem cases_per_schema_entry_witness:
  "list_all well_formed_item [balanceOf_fn, transfer_fn]
   \<and> \<not> isl (generateTestCases rt0 [balanceOf_fn, transfer_fn] addr0 0)
   \<and> map shape (synthesized (generateTestCases rt0 [balanceOf_fn, transfer_fn] addr0 0))
       = [(Some ReadCase, [Some ''balanceOf'']), (Some FuzzCase, [Some ''balanceOf'']),
          (Some WriteCase, [Some ''transfer'']),
          (Some BoundaryCase, [Some ''transfer'', Some ''transfer'']),
          (Some FuzzCase, [Some ''transfer'']),
          (Some IntegrationCase, [Some ''transfer'', Some ''balanceOf''])]"
proof -
  have h: "list_all well_formed_item [balanceOf_fn, transfer_fn]"
    by (simp add: well_formed_examples)
  have "concat (map expected_shapes [balanceOf_fn, transfer_fn])
          @ expected_integration_shape [balanceOf_fn, transfer_fn]
        = [(Some ReadCase, [Some ''balanceOf'']), (Some FuzzCase, [Some ''balanceOf'']),
           (Some WriteCase, [Some ''transfer'']),
           (Some BoundaryCase, [Some ''transfer'', Some ''transfer'']),
           (Some FuzzCase, [Some ''transfer'']),
           (Some IntegrationCase, [Some ''transfer'', Some ''balanceOf''])]"
    by (simp add: expected_shapes_def expected_integration_shape_def is_function_def
        inputs_of_def isWriteFunction_def isReadFunction_def integer_typed_def startsWith_def
        balanceOf_fn_def transfer_fn_def)
  with cases_per_schema_entry [of rt0 "[balanceOf_fn, transfer_fn]" addr0 0] h show ?thesis by simp
qed

text \<open>
  The claim as stated, for every entry classified as a function, fails: behind two
  well-formed functions a function entry without inputs list makes the call throw, and
  none of the three functions gets the cases the claim counts.
\<close>

theorem malformed_sibling_no_cases_counterexample:
  "isl (generateTestCases rt0 [transfer_fn, balanceOf_fn, no_inputs_fn] addr0 0)
   \<and> synthesized (generateTestCases rt0 [transfer_fn, balanceOf_fn, no_inputs_fn] addr0 0) = []
   \<and> concat (map expected_shapes [transfer_fn, balanceOf_fn, no_inputs_fn])
       = [(Some WriteCase, [Some ''transfer'']),
          (Some BoundaryCase, [Some ''transfer'', Some ''transfer'']),
          (Some FuzzCase, [Some ''transfer'']),
          (Some ReadCase, [Some ''balanceOf'']), (Some FuzzCase, [Some ''balanceOf'']),
          (Some WriteCase, [Some ''mint''])]"
proof -
  have bad: "\<not> list_all well_formed_item [transfer_fn, balanceOf_fn, no_inputs_fn]"
    by (simp add: well_formed_examples)
  have "concat (map expected_shapes [transfer_fn, balanceOf_fn, no_inputs_fn])
       = [(Some WriteCase, [Some ''transfer'']),
          (Some BoundaryCase, [Some ''transfer'', Some ''transfer'']),
          (Some FuzzCase, [Some ''transfer'']),
          (Some ReadCase, [Some ''balanceOf'']), (Some FuzzCase, [Some ''balanceOf'']),
          (Some WriteCase, [Some ''mint''])]"
    by (simp add: expected_shapes_def is_function_def inputs_of_def integer_typed_def
        startsWith_def balanceOf_fn_def transfer_fn_def no_inputs_fn_def)
  then show ?thesis
    using bad by (simp add: generateTestCases_faults_iff synthesized_malformed)
qed

section \<open>The integration case\<close>

text \<open>
  Claim C4, amended. For every well-formed schema with at least one write function (a
  function whose mutability is neither view nor pure) and at least one read function, the
  generator produces exactly one integration case; its first step calls the first write
  function of the schema and its second step the first read function, both at the target
  address with safe arguments. For a well-formed schema that lacks either kind it produces
  no integration case. For a schema that is not well formed the call faults and produces
  no integration case, whatever functions the schema has.
\<close>

theorem integration_case_first_write_then_first_read:
  "isl (generateTestCases rt abi addr w) = (\<not> list_all well_formed_item abi)
   \<and> calls_of IntegrationCase (synthesized (generateTestCases rt abi addr w))
       = (if list_all well_formed_item abi then expected_integration (ethers_id rt) addr abi
          else [])"
proof (cases "list_all well_formed_item abi")
  case True
  then show ?thesis
    using calls_of_synthesized [OF True, of IntegrationCase rt addr w]
      integration_calls_skeleton [OF True, of "ethers_id rt" addr]
    by (simp add: generateTestCases_faults_iff)
next
  case False
  then show ?thesis
    by (simp add: generateTestCases_faults_iff synthesized_malformed calls_of_def)
qed

theorem integration_case_first_write_then_first_read_witness:
  "list_all well_formed_item [balanceOf_fn, transfer_fn]
   \<and> \<not> isl (generateTestCases rt0 [balanceOf_fn, transfer_fn] addr0 0)
   \<and> calls_of IntegrationCase
         (synthesized (generateTestCases rt0 [balanceOf_fn, transfer_fn] addr0 0))
       = [[\<lparr> p_method = Some ''transfer'', p_contractAddress = addr0,
              p_args = [JString ''0x0000000000000000000000000000000000000001'',
                        JString ''1000000000000000000''] \<rparr>,
           \<lparr> p_method = Some ''balanceOf'', p_contractAddress = addr0,
              p_args = [JString ''0x0000000000000000000000000000000000000001''] \<rparr>]]"
proof -
  have h: "list_all well_formed_item [balanceOf_fn, transfer_fn]"
    by (simp add: well_formed_examples)
  have "expected_integration (ethers_id rt0) addr0 [balanceOf_fn, transfer_fn]
        = [[\<lparr> p_method = Some ''transfer'', p_contractAddress = addr0,
              p_args = [JString ''0x0000000000000000000000000000000000000001'',
                        JString ''1000000000000000000''] \<rparr>,
           \<lparr> p_method = Some ''balanceOf'', p_contractAddress = addr0,
              p_args = [JString ''0x0000000000000000000000000000000000000001''] \<rparr>]]"
    by (simp add: expected_integration_def isWriteFunction_def isReadFunction_def inputs_of_def
        balanceOf_fn_def transfer_fn_def safe_uint256)
      (simp add: safe_arg_def)
  with integration_case_first_write_then_first_read [of rt0 "[balanceOf_fn, transfer_fn]" addr0 0] h show ?thesis by simp
qed

text \<open>
  The claim as stated, for every schema with a write and a read function, fails: the
  schema below has both, and a function entry without inputs list; the call throws and
  there is no integration case.
\<close>

theorem malformed_sibling_no_integration_counterexample:
  "filter isWriteFunction [transfer_fn, balanceOf_fn, no_inputs_fn] = [transfer_fn, no_inputs_fn]
   \<and> filter isReadFunction [transfer_fn, balanceOf_fn, no_inputs_fn] = [balanceOf_fn]
   \<and> isl (generateTestCases rt0 [transfer_fn, balanceOf_fn, no_inputs_fn] addr0 0)
   \<and> calls_of IntegrationCase
        (synthesized (generateTestCases rt0 [transfer_fn, balanceOf_fn, no_inputs_fn] addr0 0)) = []"
proof -
  have bad: "\<not> list_all well_formed_item [transfer_fn, balanceOf_fn, no_inputs_fn]"
    by (simp add: well_formed_examples)
  have "filter isWriteFunction [transfer_fn, balanceOf_fn, no_inputs_fn] = [transfer_fn, no_inputs_fn]"
    "filter isReadFunction [transfer_fn, balanceOf_fn, no_inputs_fn] = [balanceOf_fn]"
    by (simp_all add: isWriteFunction_def isReadFunction_def balanceOf_fn_def transfer_fn_def
        no_inputs_fn_def)
  then show ?thesis
    using bad by (simp add: generateTestCases_faults_iff synthesized_malformed calls_of_def)
qed

section \<open>Boundary cases\<close>

text \<open>
  Claim C1, amended. For every well-formed schema the generator emits exactly one boundary
  case with exactly two steps for every function with at least one parameter whose type tag
  starts with \<^verbatim>\<open>uint\<close> or \<^verbatim>\<open>int\<close> (integer tags of any width, and also tags that merely
  start so, such as \<^verbatim>\<open>uint256[]\<close>), and for no other function. In the first step every
  such argument is 0 (\<^verbatim>\<open>uint\<close>) or the minimum of a signed 256-bit integer (\<^verbatim>\<open>int\<close>); in
  the second step it is the maximum of an unsigned, respectively signed, 256-bit integer,
  whatever width the tag declares. Every other parameter receives the safe value in both
  steps. For a schema that is not well formed the call faults and emits no boundary case.
\<close>

theorem boundary_case_uses_256_bit_extremes:
  "isl (generateTestCases rt abi addr w) = (\<not> list_all well_formed_item abi)
   \<and> calls_of BoundaryCase (synthesized (generateTestCases rt abi addr w))
       = (if list_all well_formed_item abi
          then map (expected_boundary (extreme256 (ethers_id rt)) addr)
                 (filter has_integer_parameter abi)
          else [])"
proof (cases "list_all well_formed_item abi")
  case True
  have "map (expected_boundary (boundary_pick (ethers_id rt)) addr) (filter has_integer_parameter abi)
          = map (expected_boundary (extreme256 (ethers_id rt)) addr)
              (filter has_integer_parameter abi)"
    using True by (auto simp: list_all_iff has_integer_parameter_def expected_boundary_extreme256)
  then show ?thesis
    using True calls_of_synthesized [OF True, of BoundaryCase rt addr w]
    by (simp add: boundary_calls_skeleton generateTestCases_faults_iff)
next
  case False
  then show ?thesis
    by (simp add: generateTestCases_faults_iff synthesized_malformed calls_of_def)
qed

theorem boundary_case_uses_256_bit_extremes_witness:
  "list_all well_formed_item [balanceOf_fn, transfer_fn]
   \<and> \<not> isl (generateTestCases rt0 [balanceOf_fn, transfer_fn] addr0 0)
   \<and> calls_of BoundaryCase (synthesized (generateTestCases rt0 [balanceOf_fn, transfer_fn] addr0 0))
       = [[\<lparr> p_method = Some ''transfer'', p_contractAddress = addr0,
              p_args = [JString ''0x0000000000000000000000000000000000000001'', JString ''0''] \<rparr>,
           \<lparr> p_method = Some ''transfer'', p_contractAddress = addr0,
              p_args = [JString ''0x0000000000000000000000000000000000000001'',
                        JString (show_int MaxUint256)] \<rparr>]]"
proof -
  have h: "list_all well_formed_item [balanceOf_fn, transfer_fn]"
    by (simp add: well_formed_examples)
  have "map (expected_boundary (extreme256 (ethers_id rt0)) addr0)
          (filter has_integer_parameter [balanceOf_fn, transfer_fn])
        = [[\<lparr> p_method = Some ''transfer'', p_contractAddress = addr0,
              p_args = [JString ''0x0000000000000000000000000000000000000001'', JString ''0''] \<rparr>,
           \<lparr> p_method = Some ''transfer'', p_contractAddress = addr0,
              p_args = [JString ''0x0000000000000000000000000000000000000001'',
                        JString (show_int MaxUint256)] \<rparr>]]"
    by (simp add: has_integer_parameter_def is_function_def inputs_of_def balanceOf_fn_def
        transfer_fn_def integer_typed_def startsWith_def expected_boundary_def extreme256_def
        safe_arg_def show_int_0 MaxUint256_def)
  with boundary_case_uses_256_bit_extremes [of rt0 "[balanceOf_fn, transfer_fn]" addr0 0] h show ?thesis by simp
qed

text \<open>
  The claim as stated fails in three ways. For a \<^verbatim>\<open>uint8\<close> parameter the maximum pass
  hands over \<open>2 ^ 256 - 1\<close>, not the 255 of the declared width. A parameter tagged
  \<^verbatim>\<open>uint256[]\<close> is not an integer, yet next to a \<^verbatim>\<open>uint256\<close> parameter it receives
  \<open>2 ^ 256 - 1\<close> on the maximum pass and not its safe value. And a function with a
  \<^verbatim>\<open>uint256\<close> parameter gets no boundary case at all when another function entry of the
  schema has no inputs list.
\<close>

theorem boundary_declared_width_counterexample:
  "calls_of BoundaryCase (synthesized (generateTestCases rt0 [setFee_fn] addr0 0))
     = [[\<lparr> p_method = Some ''setFee'', p_contractAddress = addr0, p_args = [JString ''0''] \<rparr>,
         \<lparr> p_method = Some ''setFee'', p_contractAddress = addr0,
            p_args = [JString (show_int MaxUint256)] \<rparr>]]
   \<and> declared_boundary_calls (ethers_id rt0) addr0 [setFee_fn]
     = [[\<lparr> p_method = Some ''setFee'', p_contractAddress = addr0, p_args = [JString ''0''] \<rparr>,
         \<lparr> p_method = Some ''setFee'', p_contractAddress = addr0,
            p_args = [JString (show_int 255)] \<rparr>]]
   \<and> show_int MaxUint256 \<noteq> show_int 255
   \<and> calls_of BoundaryCase (synthesized (generateTestCases rt0 [airdrop_fn] addr0 0))
     = [[\<lparr> p_method = Some ''airdrop'', p_contractAddress = addr0,
            p_args = [JString ''0'', JString ''0''] \<rparr>,
         \<lparr> p_method = Some ''airdrop'', p_contractAddress = addr0,
            p_args = [JString (show_int MaxUint256), JString (show_int MaxUint256)] \<rparr>]]
   \<and> declared_boundary_calls (ethers_id rt0) addr0 [airdrop_fn]
     = [[\<lparr> p_method = Some ''airdrop'', p_contractAddress = addr0,
            p_args = [JString ''0'', JString ''0''] \<rparr>,
         \<lparr> p_method = Some ''airdrop'', p_contractAddress = addr0,
            p_args = [JString (show_int (2 ^ 256 - 1)), JString ''0''] \<rparr>]]
   \<and> JString (show_int MaxUint256) \<noteq> JString ''0''
   \<and> has_declared_integer_parameter transfer_fn
   \<and> calls_of BoundaryCase
        (synthesized (generateTestCases rt0 [transfer_fn, no_inputs_fn] addr0 0)) = []"
proof -
  have c1: "calls_of BoundaryCase (synthesized (generateTestCases rt0 [setFee_fn] addr0 0))
     = [[\<lparr> p_method = Some ''setFee'', p_contractAddress = addr0, p_args = [JString ''0''] \<rparr>,
         \<lparr> p_method = Some ''setFee'', p_contractAddress = addr0,
            p_args = [JString (show_int MaxUint256)] \<rparr>]]"
  proof -
    have int: "has_integer_parameter setFee_fn"
      by (simp add: has_integer_parameter_def is_function_def inputs_of_def setFee_fn_def
          integer_typed_def startsWith_def)
    show ?thesis
      unfolding boundary_calls_single [OF well_formed_examples(3) int]
      by (simp add: inputs_of_def setFee_fn_def startsWith_def expected_boundary_def
          boundary_pick_def boundary_value_def)
  qed
  have d1: "declared_boundary_calls (ethers_id rt0) addr0 [setFee_fn]
     = [[\<lparr> p_method = Some ''setFee'', p_contractAddress = addr0, p_args = [JString ''0''] \<rparr>,
         \<lparr> p_method = Some ''setFee'', p_contractAddress = addr0,
            p_args = [JString (show_int 255)] \<rparr>]]"
    by (simp add: declared_boundary_calls_def has_declared_integer_parameter_def
        declared_integer_typed_def is_function_def inputs_of_def setFee_fn_def startsWith_def
        declared_width_def digit_value_def expected_boundary_def declared_extreme_def show_int_0)
  have c2: "calls_of BoundaryCase (synthesized (generateTestCases rt0 [airdrop_fn] addr0 0))
     = [[\<lparr> p_method = Some ''airdrop'', p_contractAddress = addr0,
            p_args = [JString ''0'', JString ''0''] \<rparr>,
         \<lparr> p_method = Some ''airdrop'', p_contractAddress = addr0,
            p_args = [JString (show_int MaxUint256), JString (show_int MaxUint256)] \<rparr>]]"
  proof -
    have int: "has_integer_parameter airdrop_fn"
      by (simp add: has_integer_parameter_def is_function_def inputs_of_def airdrop_fn_def
          integer_typed_def startsWith_def)
    show ?thesis
      unfolding boundary_calls_single [OF well_formed_airdrop int]
      by (simp add: inputs_of_def airdrop_fn_def startsWith_def expected_boundary_def
          boundary_pick_def boundary_value_def)
  qed
  have d2: "declared_boundary_calls (ethers_id rt0) addr0 [airdrop_fn]
     = [[\<lparr> p_method = Some ''airdrop'', p_contractAddress = addr0,
            p_args = [JString ''0'', JString ''0''] \<rparr>,
         \<lparr> p_method = Some ''airdrop'', p_contractAddress = addr0,
            p_args = [JString (show_int (2 ^ 256 - 1)), JString ''0''] \<rparr>]]"
    by (simp add: declared_boundary_calls_def has_declared_integer_parameter_def
        declared_integer_typed_def is_function_def inputs_of_def airdrop_fn_def startsWith_def
        declared_width_def digit_value_def expected_boundary_def declared_extreme_def show_int_0
        safe_arg_def)
  have n2: "JString (show_int MaxUint256) \<noteq> JString ''0''"
  proof -
    have "4 \<le> length (show_int MaxUint256)"
      using length_show_nat_big [of "nat MaxUint256"] by (simp add: show_int_def MaxUint256_def)
    then show ?thesis by auto
  qed
  have t3: "has_declared_integer_parameter transfer_fn"
    by (simp add: has_declared_integer_parameter_def declared_integer_typed_def is_function_def
        inputs_of_def transfer_fn_def startsWith_def declared_width_def digit_value_def)
  have c3: "calls_of BoundaryCase
        (synthesized (generateTestCases rt0 [transfer_fn, no_inputs_fn] addr0 0)) = []"
    by (simp add: synthesized_malformed well_formed_examples calls_of_def)
  show ?thesis
    using c1 d1 show_int_MaxUint256_not_255 c2 d2 n2 t3 c3 by blast
qed

section \<open>Malformed schema entries\<close>



section \<open>Determinism of synthesis\<close>

text \<open>
  Claim C6. For every schema and target address, two calls of the generator on the same
  inputs, started in any two states of the clock and the random source, either both fault
  or return case lists of the same structural content: the same cases in the same order,
  with the same names, descriptions, steps, methods, addresses, expected results and
  status, and the same argument values in every case that is not a fuzz case. They can
  differ only in the case and step identifiers and in the values of fuzz arguments.
\<close>

theorem synthesize_deterministic_up_to_identifiers:
  "outcome (generateTestCases rt abi addr w1) = outcome (generateTestCases rt abi addr w2)"
proof -
  have "outcome (generateTestCases rt abi addr w1) =
          (if list_all well_formed_item abi then Some (skeleton (ethers_id rt) addr abi) else None)"
    by (rule outcome_generateTestCases)
  also have "\<dots> = outcome (generateTestCases rt abi addr w2)"
    by (rule outcome_generateTestCases [symmetric])
  finally show ?thesis .
qed

section \<open>Execution of a case\<close>

text \<open>
  The loop over the steps never writes to the case it runs, raises no error when every
  call goes through, and does nothing at all on steps that are not contract calls.
\<close>

lemma run_steps_the_case: "the_case (snd (run_steps cl xs st)) = the_case st"
  by (induction xs arbitrary: st) (auto split: option.splits prod.splits sum.splits)

lemma run_steps_faultless:
  "faultless cl xs (chain st) \<Longrightarrow> fst (run_steps cl xs st) = None"
  by (induction xs arbitrary: st) (auto split: option.splits prod.splits sum.splits if_splits)

lemma run_steps_no_calls:
  "list_all (\<lambda>step. action step \<noteq> ''CONTRACT_CALL'') xs \<Longrightarrow> run_steps cl xs st = (None, st)"
  by (induction xs arbitrary: st) auto

text \<open>The batch driver on a single case is one pass of its loop.\<close>

lemma handleExecuteTests_single:
  "handleExecuteTests cl [tc] s =
     ([fst (run_case cl tc s)], chain_after (snd (run_case cl tc s)))"
  by (simp add: handleExecuteTests_def execute_step_def case_prod_beta)

text \<open>
  Claim C3, amended. When the first step of a case raises an error \<open>e\<close>, the case ends
  with status \<open>Failed\<close> and the error's message as its actual result, and no later step
  is attempted: the only call handed to the chain client is the first step's (none when
  already the construction of the contract handle threw). The log then holds the start
  line, the line announcing the call (absent when the construction threw) and the line
  with the error's message: three lines, or two, and never one.
\<close>

theorem first_step_fault_fails_case:
  assumes "steps tc = step # rest" and "first_step_fault cl tc s = Some e"
  shows "status (fst (run_case cl tc s)) = Failed
       \<and> actualResult (fst (run_case cl tc s)) = Some (message e)
       \<and> calls (snd (run_case cl tc s)) =
           (if newContract cl (params step) = None then [params step] else [])
       \<and> logs (result (snd (run_case cl tc s))) =
           [''Starting test: '' @ case_name tc]
           @ (if newContract cl (params step) = None
              then [''Executing contract call: '' @ render (p_method (params step))] else [])
           @ [''Error: '' @ message e]"
proof -
  from assms have act: "action step = ''CONTRACT_CALL''"
    by (auto simp: first_step_fault_def split: if_splits)
  show ?thesis
    using assms act
    by (auto simp: run_case_def Let_def executeTest_def first_step_fault_def
        split: option.splits prod.splits sum.splits)
qed

theorem first_step_fault_fails_case_witness:
  "steps two_step_case = hd (steps two_step_case) # tl (steps two_step_case)
   \<and> first_step_fault rejecting_client two_step_case 0 = Some (Error ''execution reverted'')
   \<and> status (fst (run_case rejecting_client two_step_case 0)) = Failed
   \<and> actualResult (fst (run_case rejecting_client two_step_case 0))
       = Some (message (Error ''execution reverted''))
   \<and> calls (snd (run_case rejecting_client two_step_case 0)) =
       (if newContract rejecting_client (params (hd (steps two_step_case))) = None
        then [params (hd (steps two_step_case))] else [])"
proof -
  have h1: "steps two_step_case = hd (steps two_step_case) # tl (steps two_step_case)"
    by (simp add: two_step_case_def integration_case_def)
  have h2: "first_step_fault rejecting_client two_step_case 0 = Some (Error ''execution reverted'')"
    by (simp add: first_step_fault_def two_step_case_def integration_case_def
        rejecting_client_def)
  show ?thesis
    using first_step_fault_fails_case [OF h1 h2] h1 h2 by simp
qed

text \<open>
  The claim as stated, with a log of length one, fails: a two-step case whose first call
  is rejected leaves three lines in the log.
\<close>

theorem first_step_fault_log_counterexample:
  "first_step_fault rejecting_client two_step_case 0 = Some (Error ''execution reverted'')
   \<and> length (logs (result (snd (run_case rejecting_client two_step_case 0)))) = 3"
  by (simp add: first_step_fault_def run_case_def Let_def executeTest_def two_step_case_def
      integration_case_def rejecting_client_def)

text \<open>
  Claim C8. When every step of a case completes without an error, the case ends with
  status \<open>Passed\<close> and the fixed text "Test passed successfully" as its actual result,
  whatever the log holds.
\<close>

theorem faultless_case_passes:
  assumes "faultless cl (steps tc) s"
  shows "status (fst (run_case cl tc s)) = Passed
       \<and> actualResult (fst (run_case cl tc s)) = Some ''Test passed successfully''
       \<and> success (result (snd (run_case cl tc s)))"
proof -
  let ?st0 = "\<lparr> the_case = tc \<lparr> status := Running \<rparr>,
                ex_logs = [''Starting test: '' @ case_name tc],
                chain = s, submitted = [] \<rparr>"
  have "fst (run_steps cl (steps tc) ?st0) = None"
    using assms by (simp add: run_steps_faultless)
  then have "success (result (executeTest cl (tc \<lparr> status := Running \<rparr>) s))"
    by (auto simp: executeTest_def split: prod.splits option.splits)
  then show ?thesis by (simp add: run_case_def Let_def)
qed

theorem faultless_case_passes_witness:
  "faultless confirming_client (steps two_step_case) 0
   \<and> status (fst (run_case confirming_client two_step_case 0)) = Passed
   \<and> actualResult (fst (run_case confirming_client two_step_case 0))
       = Some ''Test passed successfully''
   \<and> success (result (snd (run_case confirming_client two_step_case 0)))"
proof -
  have h: "faultless confirming_client (steps two_step_case) 0"
    by (simp add: two_step_case_def integration_case_def confirming_client_def)
  show ?thesis using faultless_case_passes [OF h] h by simp
qed

text \<open>
  Claim C9. \<^verbatim>\<open>executeTest\<close> leaves the test case it is handed as it was: the case after
  the call is the case before it. The status and the actual result are written by the
  driver's loop, from the result that \<^verbatim>\<open>executeTest\<close> returns, and the loop changes
  nothing else in the case.
\<close>

theorem executeTest_leaves_case_unmodified:
  "case_after (executeTest cl tc s) = tc
   \<and> fst (run_case cl tc s) =
       tc \<lparr> actualResult :=
              (if success (result (executeTest cl (tc \<lparr> status := Running \<rparr>) s))
               then Some ''Test passed successfully''
               else error (result (executeTest cl (tc \<lparr> status := Running \<rparr>) s))),
            status :=
              (if success (result (executeTest cl (tc \<lparr> status := Running \<rparr>) s))
               then Passed else Failed) \<rparr>"
proof -
  have unchanged: "case_after (executeTest cl c s) = c" for c
  proof -
    let ?st0 = "\<lparr> the_case = c, ex_logs = [''Starting test: '' @ case_name c],
                  chain = s, submitted = [] \<rparr>"
    have "the_case (snd (run_steps cl (steps c) ?st0)) = c"
      by (simp add: run_steps_the_case)
    then show ?thesis
      by (auto simp: executeTest_def split: prod.splits option.splits)
  qed
  show ?thesis
    by (simp add: unchanged run_case_def Let_def)
qed

text \<open>
  Claim C10. When no step of a case has the action kind \<^verbatim>\<open>CONTRACT_CALL\<close>, \<^verbatim>\<open>executeTest\<close>
  hands no call to the chain client and leaves the network as it was; the steps are
  skipped without an error, the result reports success, and the log holds the start line
  only.
\<close>

theorem no_contract_call_no_submission:
  assumes "list_all (\<lambda>step. action step \<noteq> ''CONTRACT_CALL'') (steps tc)"
  shows "calls (executeTest cl tc s) = []
       \<and> chain_after (executeTest cl tc s) = s
       \<and> success (result (executeTest cl tc s))
       \<and> error (result (executeTest cl tc s)) = None
       \<and> logs (result (executeTest cl tc s)) = [''Starting test: '' @ case_name tc]"
  using assms by (simp add: executeTest_def run_steps_no_calls)

theorem no_contract_call_no_submission_witness:
  "list_all (\<lambda>step. action step \<noteq> ''CONTRACT_CALL'') (steps pause_case)
   \<and> calls (executeTest rejecting_client pause_case 0) = []
   \<and> chain_after (executeTest rejecting_client pause_case 0) = 0
   \<and> success (result (executeTest rejecting_client pause_case 0))"
proof -
  have h: "list_all (\<lambda>step. action step \<noteq> ''CONTRACT_CALL'') (steps pause_case)"
    by (simp add: pause_case_def)
  show ?thesis using no_contract_call_no_submission [OF h, of rejecting_client 0] h by simp
qed

section \<open>Validation of the target\<close>

text \<open>
  Claim C7, amended. \<^verbatim>\<open>validateContract\<close> never raises an error to its caller. It returns
  \<^verbatim>\<open>false\<close> when the probe of the configured network throws and when the probe finds no
  code (\<^verbatim>\<open>0x\<close>), and \<^verbatim>\<open>true\<close> exactly when the probe returns code for the address. It
  makes no test of the address's syntax itself: whether a syntactically invalid address
  gives \<^verbatim>\<open>false\<close> is up to the probe. The test is made by the validation effect of the
  application, which asks the probe only for an address of the form \<^verbatim>\<open>0x\<close> and forty
  hexadecimal digits and sets its flag to false for every other address.
\<close>

theorem validateContract_result:
  "validateContract getCode a = Inr (\<exists>code. getCode a = Inr code \<and> code \<noteq> ''0x'')
   \<and> (\<exists>advice. validateContract_effect getCode a =
         Inr (matchesAddress a \<and> (\<exists>code. getCode a = Inr code \<and> code \<noteq> ''0x''), advice))"
  by (auto simp: validateContract_def validateContract_effect_def try_catch_def and_then_def
      matchesAddress_def split: sum.splits)

text \<open>
  The claim as stated, false for every syntactically invalid address, fails for a probe
  that resolves names: the name below is not of the address form, and \<^verbatim>\<open>validateContract\<close>
  returns \<^verbatim>\<open>true\<close> for it.
\<close>

theorem validateContract_name_counterexample:
  "\<not> matchesAddress ''uniswap.eth''
   \<and> validateContract name_resolving_probe ''uniswap.eth'' = Inr True"
  by (simp add: matchesAddress_def validateContract_def try_catch_def and_then_def
      name_resolving_probe_def)

end
